theory Spec2Isabelle
  imports Main
begin

section \<open>Python values that the agent handles\<close>

text \<open>
  The agent of \<^verbatim>\<open>agent.py\<close> works on decoded JSON: the bodies of HTTP responses and
  the content of its state file. A decoded JSON document is a Python value built from
  \<^verbatim>\<open>None\<close>, booleans, integers, strings, lists and dictionaries with string keys.
  (JSON numbers with a fraction decode to floats; they are left out.) Strings are
  modelled as \<^typ>\<open>string\<close> and are meant to hold ASCII characters: the case
  conversion and the \<^verbatim>\<open>repr\<close> below leave every character above 127 unchanged.
  A dictionary is an association list with distinct keys, read with \<^const>\<open>map_of\<close>.
\<close>

datatype json =
    JNull
  | JBool bool
  | JInt int
  | JStr string
  | JList "json list"
  | JObj "(string \<times> json) list"

text \<open>
  The exceptions that the operations used by the agent raise. All but
  \<open>KeyboardInterrupt\<close> are subclasses of Python's \<^verbatim>\<open>Exception\<close>;
  \<open>KeyboardInterrupt\<close> is the external interruption of the process.
\<close>

datatype exn =
    AttributeError
  | KeyError
  | TypeError
  | IndexError
  | ValueError
  | OverflowError
  | JSONDecodeError
  | RequestException
  | KeyboardInterrupt

fun is_Exception :: "exn \<Rightarrow> bool" where
  "is_Exception KeyboardInterrupt = False"
| "is_Exception _ = True"

text \<open>Sequencing of computations that may raise.\<close>

definition bindE :: "exn + 'a \<Rightarrow> ('a \<Rightarrow> exn + 'b) \<Rightarrow> exn + 'b" where
  "bindE r f = (case r of Inl e \<Rightarrow> Inl e | Inr x \<Rightarrow> f x)"

text \<open>Truth value of a Python object, as \<^verbatim>\<open>if x:\<close> and \<^verbatim>\<open>x or y\<close> test it.\<close>

fun truthy :: "json \<Rightarrow> bool" where
  "truthy JNull = False"
| "truthy (JBool b) = b"
| "truthy (JInt i) = (i \<noteq> 0)"
| "truthy (JStr s) = (s \<noteq> [])"
| "truthy (JList xs) = (xs \<noteq> [])"
| "truthy (JObj kv) = (kv \<noteq> [])"

text \<open>\<^verbatim>\<open>d.get(key, default)\<close>: only a dictionary has the method.\<close>

fun py_get :: "json \<Rightarrow> string \<Rightarrow> json \<Rightarrow> exn + json" where
  "py_get (JObj kv) k d = Inr (case map_of kv k of Some v \<Rightarrow> v | None \<Rightarrow> d)"
| "py_get _ k d = Inl AttributeError"

text \<open>
  \<^verbatim>\<open>x[key]\<close> with a string key: a missing key of a dictionary is a
  \<^verbatim>\<open>KeyError\<close>; lists and strings want integer indices and the other values are
  not subscriptable, a \<^verbatim>\<open>TypeError\<close> in both cases.
\<close>

fun py_item :: "json \<Rightarrow> string \<Rightarrow> exn + json" where
  "py_item (JObj kv) k = (case map_of kv k of Some v \<Rightarrow> Inr v | None \<Rightarrow> Inl KeyError)"
| "py_item _ k = Inl TypeError"

text \<open>
  \<^verbatim>\<open>x[0]\<close>: the first element of a list, the first character of a string
  (\<^verbatim>\<open>IndexError\<close> when there is none); a decoded dictionary has string keys
  only, so the key \<^verbatim>\<open>0\<close> is missing.
\<close>

fun py_first :: "json \<Rightarrow> exn + json" where
  "py_first (JList (x # xs)) = Inr x"
| "py_first (JList []) = Inl IndexError"
| "py_first (JStr (c # cs)) = Inr (JStr [c])"
| "py_first (JStr []) = Inl IndexError"
| "py_first (JObj kv) = Inl KeyError"
| "py_first _ = Inl TypeError"

text \<open>
  \<^verbatim>\<open>x[:20]\<close>: strings and lists are sliced. A slice of a dictionary raises
  (\<^verbatim>\<open>TypeError\<close> up to Python 3.11, \<^verbatim>\<open>KeyError\<close> from 3.12 on; the model
  takes the former), the other values are not subscriptable.
\<close>

fun py_slice :: "json \<Rightarrow> nat \<Rightarrow> exn + json" where
  "py_slice (JStr s) n = Inr (JStr (take n s))"
| "py_slice (JList xs) n = Inr (JList (take n xs))"
| "py_slice _ n = Inl TypeError"

text \<open>\<^verbatim>\<open>len(x)\<close>.\<close>

fun py_len :: "json \<Rightarrow> exn + nat" where
  "py_len (JStr s) = Inr (length s)"
| "py_len (JList xs) = Inr (length xs)"
| "py_len (JObj kv) = Inr (length kv)"
| "py_len _ = Inl TypeError"

text \<open>
  \<^verbatim>\<open>for x in v\<close>: the elements of a list, the keys of a dictionary, the characters
  of a string; nothing else among the decoded values is iterable.
\<close>

fun py_iter :: "json \<Rightarrow> exn + json list" where
  "py_iter (JList xs) = Inr xs"
| "py_iter (JObj kv) = Inr (map (\<lambda>p. JStr (fst p)) kv)"
| "py_iter (JStr s) = Inr (map (\<lambda>c. JStr [c]) s)"
| "py_iter _ = Inl TypeError"

subsection \<open>Strings\<close>

definition lower_char :: "char \<Rightarrow> char" where
  "lower_char c =
     (let n = (of_char c :: nat) in if 65 \<le> n \<and> n \<le> 90 then char_of (n + 32) else c)"

definition lower :: "string \<Rightarrow> string" where
  "lower s = map lower_char s"

text \<open>\<^verbatim>\<open>x.lower()\<close>: a method of strings only.\<close>

fun py_lower :: "json \<Rightarrow> exn + string" where
  "py_lower (JStr s) = Inr (lower s)"
| "py_lower _ = Inl AttributeError"

fun starts_with :: "string \<Rightarrow> string \<Rightarrow> bool" where
  "starts_with [] ys = True"
| "starts_with (x # xs) [] = False"
| "starts_with (x # xs) (y # ys) = (x = y \<and> starts_with xs ys)"

text \<open>\<^verbatim>\<open>p in s\<close> on two strings: \<open>p\<close> occurs in \<open>s\<close> as a substring.\<close>

fun str_in :: "string \<Rightarrow> string \<Rightarrow> bool" where
  "str_in p [] = (p = [])"
| "str_in p (c # cs) = (starts_with p (c # cs) \<or> str_in p cs)"

text \<open>\<^verbatim>\<open>sep.join(xs)\<close>.\<close>

fun join :: "string \<Rightarrow> string list \<Rightarrow> string" where
  "join sep [] = []"
| "join sep [x] = x"
| "join sep (x # y # ys) = x @ sep @ join sep (y # ys)"

fun digits :: "nat \<Rightarrow> string" where
  "digits n =
     (if n < 10 then [char_of (48 + n)] else digits (n div 10) @ [char_of (48 + n mod 10)])"

declare digits.simps [simp del]

definition str_int :: "int \<Rightarrow> string" where
  "str_int i = (if i < 0 then CHR ''-'' # digits (nat (- i)) else digits (nat i))"

definition hex_digit :: "nat \<Rightarrow> char" where
  "hex_digit d = (if d < 10 then char_of (48 + d) else char_of (87 + d))"

text \<open>
  \<^verbatim>\<open>repr\<close> of a string: double quotes when the string holds a single quote and no
  double quote, single quotes otherwise; the quote in use and the backslash are
  escaped, control characters are written \<^verbatim>\<open>\t\<close>, \<^verbatim>\<open>\n\<close>, \<^verbatim>\<open>\r\<close> or
  \<^verbatim>\<open>\xNN\<close>.
\<close>

definition repr_char :: "char \<Rightarrow> char \<Rightarrow> string" where
  "repr_char q c =
     (let n = (of_char c :: nat) in
      if c = q \<or> c = CHR 0x5C then [CHR 0x5C, c]
      else if n = 9 then [CHR 0x5C, CHR ''t'']
      else if n = 10 then [CHR 0x5C, CHR ''n'']
      else if n = 13 then [CHR 0x5C, CHR ''r'']
      else if n < 32 \<or> n = 127 then [CHR 0x5C, CHR ''x'', hex_digit (n div 16), hex_digit (n mod 16)]
      else [c])"

definition repr_str :: "string \<Rightarrow> string" where
  "repr_str s =
     (let q = (if CHR 0x27 \<in> set s \<and> CHR 0x22 \<notin> set s then CHR 0x22 else CHR 0x27)
      in q # concat (map (repr_char q) s) @ [q])"

fun py_repr :: "json \<Rightarrow> string" where
  "py_repr JNull = ''None''"
| "py_repr (JBool b) = (if b then ''True'' else ''False'')"
| "py_repr (JInt i) = str_int i"
| "py_repr (JStr s) = repr_str s"
| "py_repr (JList xs) = ''['' @ join '', '' (map py_repr xs) @ '']''"
| "py_repr (JObj kv) =
     ''{'' @ join '', '' (map (\<lambda>p. repr_str (fst p) @ '': '' @ py_repr (snd p)) kv) @ ''}''"

text \<open>\<^verbatim>\<open>str(x)\<close>, also what an f-string puts in for \<^verbatim>\<open>{x}\<close>.\<close>

fun py_str :: "json \<Rightarrow> string" where
  "py_str (JStr s) = s"
| "py_str v = py_repr v"

section \<open>The agent and its environment\<close>

text \<open>
  The remote service answers each call of \<^verbatim>\<open>requests.get\<close> or
  \<^verbatim>\<open>requests.post\<close> with a response (a status code and a body, \<open>None\<close> when
  the body is not JSON and \<^verbatim>\<open>response.json()\<close> raises), or the call itself raises.
\<close>

record response =
  status_code :: int
  body :: "json option"

datatype reply = Reply response | Raises exn

datatype http_method = GET | POST

record request =
  meth :: http_method
  url :: string
  hdrs :: "(string \<times> json) list"
  params :: "(string \<times> string) list"
  payload :: "json option"

text \<open>The state file: its content decoded by \<^verbatim>\<open>json.load\<close>, when that succeeds.\<close>

datatype stored = Undecodable | Content json

text \<open>What the program prints (one constructor for each \<^verbatim>\<open>print\<close>), and its sleeps.\<close>

datatype event =
    PrintLoaded json
  | PrintAlreadyRegistered json
  | PrintRegistering json
  | PrintRegistered
  | PrintApiKey json
  | PrintRegistrationFailed json
  | PrintFoundGigs nat string
  | PrintFetchGigsFailed int
  | PrintApplied json
  | PrintAlreadyApplied
  | PrintApplicationFailed json
  | PrintApplications json json json
  | PrintFetchApplicationsFailed
  | PrintSubmitted
  | PrintSubmissionFailed json
  | PrintWorkingOn json
  | PrintRule
  | PrintRunningCycle json
  | PrintNoOpenGigs
  | PrintFoundMatching json
  | PrintBudget json
  | PrintChecking
  | PrintAccepted json
  | PrintStartingLoop int
  | PrintError exn
  | PrintSleeping int
  | Sleep int

text \<open>
  The state of a run: the fields of the \<^verbatim>\<open>ClawJobsAgent\<close> object (\<open>name\<close>,
  \<open>capabilities\<close>, \<open>api_key\<close>, \<open>user_id\<close>), the state file (\<open>None\<close> when it
  does not exist), and the environment: \<open>replies k\<close> is the answer to the \<open>k\<close>-th
  network call, \<open>sent\<close> the calls made so far, \<open>interrupts k\<close> tells whether the
  \<open>k\<close>-th sleep is interrupted from outside, \<open>naps\<close> counts the sleeps so far,
  and \<open>trace\<close> is what has been printed and slept. Printing cannot fail, and an
  interruption from outside reaches the program at a network call or in a sleep.
\<close>

record state =
  name :: json
  capabilities :: "string list"
  api_key :: json
  user_id :: json
  state_file :: "stored option"
  replies :: "nat \<Rightarrow> reply"
  sent :: "request list"
  interrupts :: "nat \<Rightarrow> bool"
  naps :: nat
  trace :: "event list"

type_synonym 'a prog = "state \<Rightarrow> (exn + 'a) \<times> state"

definition ret :: "'a \<Rightarrow> 'a prog" where
  "ret x = (\<lambda>s. (Inr x, s))"

definition lift :: "exn + 'a \<Rightarrow> 'a prog" where
  "lift r = (\<lambda>s. (r, s))"

definition bnd :: "'a prog \<Rightarrow> ('a \<Rightarrow> 'b prog) \<Rightarrow> 'b prog" where
  "bnd m f = (\<lambda>s. case m s of (Inl e, s') \<Rightarrow> (Inl e, s') | (Inr x, s') \<Rightarrow> f x s')"

definition get_self :: "state prog" where
  "get_self = (\<lambda>s. (Inr s, s))"

definition print :: "event \<Rightarrow> unit prog" where
  "print ev = (\<lambda>s. (Inr (), s\<lparr>trace := trace s @ [ev]\<rparr>))"

text \<open>
  \<^verbatim>\<open>time.sleep(d)\<close> on an integer \<open>d\<close>. CPython first converts the seconds to
  its timestamp, a signed 64-bit count of nanoseconds, and raises
  \<^verbatim>\<open>OverflowError\<close> when \<open>d\<close> does not fit: beyond \<open>SLEEP_MAX\<close>, which is
  \<open>(2 ^ 63 - 1) div 10 ^ 9\<close> seconds, on either side of zero. It then raises
  \<^verbatim>\<open>ValueError\<close> for a negative \<open>d\<close>; otherwise it sleeps, unless it is
  interrupted.
\<close>

definition SLEEP_MAX :: int where
  "SLEEP_MAX = 9223372036"

definition sleep :: "int \<Rightarrow> unit prog" where
  "sleep d = (\<lambda>s.
     if d < - SLEEP_MAX \<or> SLEEP_MAX < d then (Inl OverflowError, s)
     else if d < 0 then (Inl ValueError, s)
     else
       let s' = s\<lparr>trace := trace s @ [Sleep d], naps := Suc (naps s)\<rparr>
       in if interrupts s (naps s) then (Inl KeyboardInterrupt, s') else (Inr (), s'))"

text \<open>\<^verbatim>\<open>requests.get\<close> and \<^verbatim>\<open>requests.post\<close>.\<close>

definition http :: "request \<Rightarrow> response prog" where
  "http req = (\<lambda>s.
     let s' = s\<lparr>sent := sent s @ [req]\<rparr>
     in case replies s (length (sent s)) of
          Reply r \<Rightarrow> (Inr r, s')
        | Raises e \<Rightarrow> (Inl e, s'))"

definition response_json :: "response \<Rightarrow> exn + json" where
  "response_json r = (case body r of Some j \<Rightarrow> Inr j | None \<Rightarrow> Inl JSONDecodeError)"

definition BASE_URL :: string where
  "BASE_URL = ''https://claw-jobs.com/api''"

definition LIGHTNING_ADDRESS :: string where
  "LIGHTNING_ADDRESS = []"

section \<open>The matcher\<close>

text \<open>
  The test of the first inner loop, for the lowercased category \<open>cat\<close> and the
  lowercased rendering \<open>caps_text\<close> of the required capabilities of one gig, and the
  test of the second inner loop, for its lowercased title and description
  \<open>gig_text\<close>.
\<close>

definition category_match :: "string list \<Rightarrow> string \<Rightarrow> string \<Rightarrow> bool" where
  "category_match caps cat caps_text =
     list_ex (\<lambda>cap. str_in (lower cap) cat \<or> str_in (lower cap) caps_text) caps"

definition text_match :: "string list \<Rightarrow> string \<Rightarrow> bool" where
  "text_match caps gig_text = list_ex (\<lambda>cap. str_in (lower cap) gig_text) caps"

text \<open>
  What the body of the outer loop computes from one gig: the lowercased category
  (it raises when the gig is not a dictionary or its category is not a string), the
  lowercased rendering of the required capabilities, the lowercased title and
  description.
\<close>

definition gig_category :: "json \<Rightarrow> exn + string" where
  "gig_category gig = bindE (py_get gig ''category'' (JStr [])) py_lower"

definition gig_caps_text :: "json \<Rightarrow> exn + string" where
  "gig_caps_text gig =
     bindE (py_get gig ''required_capabilities'' (JList [])) (\<lambda>gig_caps.
       Inr (lower (py_str gig_caps)))"

definition gig_text :: "json \<Rightarrow> exn + string" where
  "gig_text gig =
     bindE (py_get gig ''title'' (JStr [])) (\<lambda>t.
     bindE (py_get gig ''description'' (JStr [])) (\<lambda>d.
       Inr (lower (py_str t @ '' '' @ py_str d))))"

text \<open>
  The body of the outer loop for one gig: whether the loop returns this gig, from
  its first inner loop or, failing that, from its second.
\<close>

definition gig_matches :: "string list \<Rightarrow> json \<Rightarrow> exn + bool" where
  "gig_matches caps gig =
     bindE (gig_category gig) (\<lambda>cat.
     bindE (gig_caps_text gig) (\<lambda>caps_text.
       if category_match caps cat caps_text then Inr True
       else bindE (gig_text gig) (\<lambda>txt. Inr (text_match caps txt))))"

text \<open>The outer loop: the gig it returns, or \<open>None\<close> when it runs to its end.\<close>

fun scan_gigs :: "string list \<Rightarrow> json list \<Rightarrow> exn + json option" where
  "scan_gigs caps [] = Inr None"
| "scan_gigs caps (gig # rest) =
     bindE (gig_matches caps gig) (\<lambda>hit. if hit then Inr (Some gig) else scan_gigs caps rest)"

text \<open>
  \<^verbatim>\<open>find_matching_gig(self, gigs)\<close>: the loop over \<^verbatim>\<open>gigs\<close>, then
  \<^verbatim>\<open>gigs[0] if gigs else None\<close>. It prints nothing and changes nothing.
\<close>

definition find_matching_gig :: "state \<Rightarrow> json \<Rightarrow> exn + json" where
  "find_matching_gig self gigs =
     bindE (py_iter gigs) (\<lambda>gs.
     bindE (scan_gigs (capabilities self) gs) (\<lambda>found.
       case found of
         Some gig \<Rightarrow> Inr gig
       | None \<Rightarrow> if truthy gigs then py_first gigs else Inr JNull))"

section \<open>The methods of the agent\<close>

text \<open>\<^verbatim>\<open>_load_state\<close>, \<^verbatim>\<open>_save_state\<close> and the constructor.\<close>

definition load_state :: "unit prog" where
  "load_state = bnd get_self (\<lambda>self.
     case state_file self of
       None \<Rightarrow> ret ()
     | Some f \<Rightarrow>
         bnd (lift (case f of Undecodable \<Rightarrow> Inl JSONDecodeError | Content st \<Rightarrow> Inr st)) (\<lambda>st.
         bnd (lift (py_get st ''api_key'' JNull)) (\<lambda>k.
         bnd (\<lambda>s. (Inr (), s\<lparr>api_key := k\<rparr>)) (\<lambda>_.
         bnd (lift (py_get st ''user_id'' JNull)) (\<lambda>u.
         bnd (\<lambda>s. (Inr (), s\<lparr>user_id := u\<rparr>)) (\<lambda>_.
         bnd (lift (py_get st ''name'' (name self))) (\<lambda>n.
         bnd (\<lambda>s. (Inr (), s\<lparr>name := n\<rparr>)) (\<lambda>_.
         print (PrintLoaded n)))))))))"

definition save_state :: "unit prog" where
  "save_state = (\<lambda>s. (Inr (), s\<lparr>state_file :=
     Some (Content (JObj [(''api_key'', api_key s), (''user_id'', user_id s), (''name'', name s)]))\<rparr>))"

definition init :: "string \<Rightarrow> string list \<Rightarrow> unit prog" where
  "init nm caps =
     bnd (\<lambda>s. (Inr (), s\<lparr>name := JStr nm, capabilities := caps, api_key := JNull, user_id := JNull\<rparr>))
       (\<lambda>_. load_state)"

text \<open>\<^verbatim>\<open>_headers\<close>.\<close>

definition headers :: "state \<Rightarrow> (string \<times> json) list" where
  "headers self =
     (''Content-Type'', JStr ''application/json'') #
     (if truthy (api_key self) then [(''x-api-key'', api_key self)] else [])"

definition register_request :: "state \<Rightarrow> request" where
  "register_request self =
     \<lparr>meth = POST, url = BASE_URL @ ''/auth/register'', hdrs = headers self, params = [],
      payload = Some (JObj
        [(''name'', name self),
         (''type'', JStr ''agent''),
         (''capabilities'', JList (map JStr (capabilities self))),
         (''bio'', JStr (''I'' @ [CHR 0x27] @ ''m an example agent that can help with '' @
                        join '', '' (capabilities self) @ ''.'')),
         (''lightning_address'',
            if LIGHTNING_ADDRESS \<noteq> [] then JStr LIGHTNING_ADDRESS else JNull)])\<rparr>"

definition register :: "bool prog" where
  "register = bnd get_self (\<lambda>self.
     if truthy (api_key self) then
       bnd (print (PrintAlreadyRegistered (name self))) (\<lambda>_. ret True)
     else
       bnd (print (PrintRegistering (name self))) (\<lambda>_.
       bnd (http (register_request self)) (\<lambda>response.
         if status_code response = 201 then
           bnd (lift (response_json response)) (\<lambda>data.
           bnd (lift (py_item data ''api_key'')) (\<lambda>k.
           bnd (\<lambda>s. (Inr (), s\<lparr>api_key := k\<rparr>)) (\<lambda>_.
           bnd (lift (bindE (py_item data ''user'') (\<lambda>u. py_item u ''id''))) (\<lambda>uid.
           bnd (\<lambda>s. (Inr (), s\<lparr>user_id := uid\<rparr>)) (\<lambda>_.
           bnd save_state (\<lambda>_.
           bnd (print PrintRegistered) (\<lambda>_.
           bnd (lift (py_slice k 20)) (\<lambda>shown.
           bnd (print (PrintApiKey shown)) (\<lambda>_. ret True)))))))))
         else
           bnd (lift (response_json response)) (\<lambda>err.
           bnd (print (PrintRegistrationFailed err)) (\<lambda>_. ret False)))))"

definition gigs_request :: "state \<Rightarrow> string \<Rightarrow> request" where
  "gigs_request self status =
     \<lparr>meth = GET, url = BASE_URL @ ''/gigs'', hdrs = headers self,
      params = [(''status'', status)], payload = None\<rparr>"

definition browse_gigs :: "string \<Rightarrow> json prog" where
  "browse_gigs status = bnd get_self (\<lambda>self.
     bnd (http (gigs_request self status)) (\<lambda>response.
       if status_code response = 200 then
         bnd (lift (response_json response)) (\<lambda>gigs.
         bnd (lift (py_len gigs)) (\<lambda>n.
         bnd (print (PrintFoundGigs n status)) (\<lambda>_. ret gigs)))
       else
         bnd (print (PrintFetchGigsFailed (status_code response))) (\<lambda>_. ret (JList []))))"

definition apply_request :: "state \<Rightarrow> json \<Rightarrow> json \<Rightarrow> request" where
  "apply_request self gig_id proposal =
     \<lparr>meth = POST, url = BASE_URL @ ''/gigs/'' @ py_str gig_id @ ''/apply'', hdrs = headers self,
      params = [],
      payload = Some (if truthy proposal then JObj [(''proposal'', proposal)] else JObj [])\<rparr>"

definition apply_to_gig :: "json \<Rightarrow> json \<Rightarrow> json prog" where
  "apply_to_gig gig_id proposal = bnd get_self (\<lambda>self.
     bnd (http (apply_request self gig_id proposal)) (\<lambda>response.
       if status_code response = 201 then
         bnd (lift (response_json response)) (\<lambda>data.
         bnd (lift (bindE (py_item data ''application'') (\<lambda>a. py_item a ''gig_title''))) (\<lambda>t.
         bnd (print (PrintApplied t)) (\<lambda>_. ret data)))
       else if status_code response = 409 then
         bnd (print PrintAlreadyApplied) (\<lambda>_. ret JNull)
       else
         bnd (lift (response_json response)) (\<lambda>err.
         bnd (print (PrintApplicationFailed err)) (\<lambda>_. ret JNull))))"

definition applications_request :: "state \<Rightarrow> request" where
  "applications_request self =
     \<lparr>meth = GET, url = BASE_URL @ ''/applications'', hdrs = headers self, params = [],
      payload = None\<rparr>"

definition check_applications :: "json prog" where
  "check_applications = bnd get_self (\<lambda>self.
     bnd (http (applications_request self)) (\<lambda>response.
       if status_code response = 200 then
         bnd (lift (response_json response)) (\<lambda>data.
         bnd (lift (py_get data ''applications'' (JList []))) (\<lambda>apps.
         bnd (lift (py_get data ''stats'' (JObj []))) (\<lambda>stats.
         bnd (lift (py_get stats ''total'' (JInt 0))) (\<lambda>total.
         bnd (lift (py_get stats ''accepted'' (JInt 0))) (\<lambda>accepted.
         bnd (lift (py_get stats ''pending'' (JInt 0))) (\<lambda>pending.
         bnd (print (PrintApplications total accepted pending)) (\<lambda>_. ret apps)))))))
       else
         bnd (print PrintFetchApplicationsFailed) (\<lambda>_. ret (JList []))))"

definition deliverable_request :: "state \<Rightarrow> json \<Rightarrow> string \<Rightarrow> request" where
  "deliverable_request self gig_id content =
     \<lparr>meth = POST, url = BASE_URL @ ''/deliverables'', hdrs = headers self, params = [],
      payload = Some (JObj
        [(''gig_id'', gig_id),
         (''content'', JStr content),
         (''notes'', JStr ''Completed by example agent'')])\<rparr>"

definition submit_deliverable :: "json \<Rightarrow> string \<Rightarrow> bool prog" where
  "submit_deliverable gig_id content = bnd get_self (\<lambda>self.
     bnd (http (deliverable_request self gig_id content)) (\<lambda>response.
       if status_code response \<in> set [200, 201] then
         bnd (print PrintSubmitted) (\<lambda>_. ret True)
       else
         bnd (lift (response_json response)) (\<lambda>err.
         bnd (print (PrintSubmissionFailed err)) (\<lambda>_. ret False))))"

text \<open>
  The text that \<^verbatim>\<open>do_work\<close> returns, a line after the other. Its last line ends
  with a lightning sign, U+26A1, given here by its three bytes in UTF-8.
\<close>

definition deliverable_text :: "json \<Rightarrow> json \<Rightarrow> json \<Rightarrow> string list \<Rightarrow> string" where
  "deliverable_text title shown nm caps = concat (map (\<lambda>l. l @ [CHR 0x0A])
     [[],
      ''# Deliverable for: '' @ py_str title,
      [],
      ''## Summary'',
      ''This is an example deliverable from the Claw Jobs example agent.'',
      [],
      ''## Work Completed'',
      ''Based on the gig requirements:'',
      py_str shown @ ''...'',
      [],
      ''I have completed the requested work. In a real agent, this would contain:'',
      ''- Actual research findings'',
      ''- Generated content'',
      ''- Data analysis results'',
      ''- Or whatever the gig required'',
      [],
      ''## Notes'',
      ''- Completed by: '' @ py_str nm,
      ''- Capabilities used: '' @ join '', '' caps,
      [],
      ''Thank you for using Claw Jobs! '' @ [CHR 0xE2, CHR 0x9A, CHR 0xA1]])"

definition do_work :: "json \<Rightarrow> string prog" where
  "do_work gig = bnd get_self (\<lambda>self.
     bnd (lift (py_get gig ''title'' (JStr ''Unknown gig''))) (\<lambda>title.
     bnd (lift (py_get gig ''description'' (JStr []))) (\<lambda>description.
     bnd (print (PrintWorkingOn title)) (\<lambda>_.
     bnd (sleep 2) (\<lambda>_.
     bnd (lift (py_slice description 200)) (\<lambda>shown.
       ret (deliverable_text title shown (name self) (capabilities self))))))))"

text \<open>
  \<^verbatim>\<open>run_once\<close>. The body of its last loop, for one application, is \<open>work_on\<close>,
  the loop is \<open>work_on_accepted\<close>; its steps 3 and 4 (check the applications, work
  on the accepted ones) are \<open>check_and_work\<close>.
\<close>

definition work_on :: "json \<Rightarrow> unit prog" where
  "work_on app =
     bnd (lift (py_item app ''status'')) (\<lambda>status.
       if status = JStr ''accepted'' then
         bnd (lift (py_get app ''gig'' (JObj []))) (\<lambda>gig.
         bnd (lift (py_get gig ''id'' JNull)) (\<lambda>gig_id.
           if truthy gig_id then
             bnd (lift (py_get gig ''title'' JNull)) (\<lambda>t.
             bnd (print (PrintAccepted t)) (\<lambda>_.
             bnd (do_work gig) (\<lambda>deliverable.
             bnd (submit_deliverable gig_id deliverable) (\<lambda>_. ret ()))))
           else ret ()))
       else ret ())"

fun work_on_accepted :: "json list \<Rightarrow> unit prog" where
  "work_on_accepted [] = ret ()"
| "work_on_accepted (app # rest) = bnd (work_on app) (\<lambda>_. work_on_accepted rest)"

definition check_and_work :: "unit prog" where
  "check_and_work =
     bnd (print PrintChecking) (\<lambda>_.
     bnd check_applications (\<lambda>apps.
     bnd (lift (py_iter apps)) work_on_accepted))"

definition run_once :: "unit prog" where
  "run_once = bnd get_self (\<lambda>self.
     bnd (print PrintRule) (\<lambda>_.
     bnd (print (PrintRunningCycle (name self))) (\<lambda>_.
     bnd (print PrintRule) (\<lambda>_.
     bnd (browse_gigs ''open'') (\<lambda>gigs.
       if \<not> truthy gigs then print PrintNoOpenGigs
       else
         bnd (lift (find_matching_gig self gigs)) (\<lambda>matching_gig.
         bnd (if truthy matching_gig then
                bnd (lift (py_item matching_gig ''title'')) (\<lambda>t.
                bnd (print (PrintFoundMatching t)) (\<lambda>_.
                bnd (lift (py_item matching_gig ''budget_sats'')) (\<lambda>b.
                bnd (print (PrintBudget b)) (\<lambda>_.
                bnd (lift (py_item matching_gig ''id'')) (\<lambda>gig_id.
                bnd (apply_to_gig gig_id JNull) (\<lambda>_. ret ()))))))
              else ret ()) (\<lambda>_.
         check_and_work)))))))"

text \<open>
  \<^verbatim>\<open>run_loop\<close>: \<open>cycle\<close> is the body of its \<^verbatim>\<open>while True\<close>, \<open>run_forever\<close>
  the loop, which has a value only if it ends, with what it ends by.
\<close>

definition cycle :: "int \<Rightarrow> unit prog" where
  "cycle interval_seconds =
     bnd (\<lambda>s. case run_once s of
                 (Inl e, s') \<Rightarrow> if is_Exception e then print (PrintError e) s' else (Inl e, s')
               | (Inr u, s') \<Rightarrow> (Inr (), s')) (\<lambda>_.
     bnd (print (PrintSleeping interval_seconds)) (\<lambda>_.
     sleep interval_seconds))"

partial_function (option) run_forever :: "int \<Rightarrow> state \<Rightarrow> (exn \<times> state) option" where
  "run_forever interval_seconds s =
     (case cycle interval_seconds s of
        (Inl e, s') \<Rightarrow> Some (e, s')
      | (Inr u, s') \<Rightarrow> run_forever interval_seconds s')"

definition run_loop :: "int \<Rightarrow> state \<Rightarrow> (exn \<times> state) option" where
  "run_loop interval_seconds s =
     run_forever interval_seconds (snd (print (PrintStartingLoop interval_seconds) s))"

section \<open>Vocabulary of the properties, and example inputs\<close>

text \<open>\<^verbatim>\<open>CAPABILITIES\<close>, the list the source file configures.\<close>

definition CAPABILITIES :: "string list" where
  "CAPABILITIES = [''research'', ''writing'', ''summarization'', ''data-analysis'']"

text \<open>
  A gig is readable when the loop body gets its lowercased category: it is a
  dictionary whose category, if any, is a string. It matches on its category when the
  test of the first inner loop holds for it, on its text when the test of the second
  does.
\<close>

definition readable :: "json \<Rightarrow> bool" where
  "readable gig = (case gig_category gig of Inr c \<Rightarrow> True | Inl e \<Rightarrow> False)"

definition on_category :: "string list \<Rightarrow> json \<Rightarrow> bool" where
  "on_category caps gig =
     (case gig_category gig of
        Inr cat \<Rightarrow> (case gig_caps_text gig of
                      Inr caps_text \<Rightarrow> category_match caps cat caps_text
                    | Inl e \<Rightarrow> False)
      | Inl e \<Rightarrow> False)"

definition on_text :: "string list \<Rightarrow> json \<Rightarrow> bool" where
  "on_text caps gig = (case gig_text gig of Inr txt \<Rightarrow> text_match caps txt | Inl e \<Rightarrow> False)"

text \<open>
  A registered agent at the start of a run, in front of a service that answers the
  \<open>k\<close>-th call with \<open>rs k\<close>; a service that is unreachable, and one that gives
  the same answer to every call.
\<close>

definition example_agent :: "(nat \<Rightarrow> reply) \<Rightarrow> state" where
  "example_agent rs =
     \<lparr>name = JStr ''ExampleAgent-ab12'', capabilities = CAPABILITIES,
      api_key = JStr ''key-1'', user_id = JStr ''u-1'', state_file = None,
      replies = rs, sent = [], interrupts = (\<lambda>k. False), naps = 0, trace = []\<rparr>"

definition offline :: "nat \<Rightarrow> reply" where
  "offline = (\<lambda>k. Raises RequestException)"

definition always :: "int \<Rightarrow> json option \<Rightarrow> nat \<Rightarrow> reply" where
  "always code b = (\<lambda>k. Reply \<lparr>status_code = code, body = b\<rparr>)"

definition refused :: state where
  "refused = example_agent (always 500 (Some (JObj [])))"

definition text_only_gig :: json where
  "text_only_gig = JObj [(''title'', JStr ''Writing tips''), (''category'', JStr ''misc'')]"

definition category_gig :: json where
  "category_gig = JObj [(''title'', JStr ''misc''), (''category'', JStr ''writing'')]"

definition plain_gig :: json where
  "plain_gig = JObj [(''title'', JStr ''data cleanup''), (''category'', JStr ''misc'')]"


definition conflicting :: state where
  "conflicting = example_agent (always 409 None)"

text \<open>An agent that starts with the state file of an earlier run.\<close>

definition returning :: state where
  "returning = (example_agent offline)
     \<lparr>api_key := JNull, user_id := JNull,
      state_file := Some (Content (JObj
        [(''api_key'', JStr ''key-1''), (''user_id'', JStr ''u-1''),
         (''name'', JStr ''ExampleAgent-ab12'')]))\<rparr>"

text \<open>
  An agent that has not registered yet and has no state file, in front of a service
  that acknowledges the registration.
\<close>

definition fresh :: state where
  "fresh = (example_agent (always 201 (Some (JObj
       [(''api_key'', JStr ''key-9''), (''user'', JObj [(''id'', JStr ''u-9'')])]))))
     \<lparr>api_key := JNull, user_id := JNull\<rparr>"

text \<open>The state in which \<^verbatim>\<open>run_once\<close> calls \<^verbatim>\<open>browse_gigs\<close>: after its banner.\<close>

definition banner :: "state \<Rightarrow> state" where
  "banner s = s\<lparr>trace := trace s @ [PrintRule, PrintRunningCycle (name s), PrintRule]\<rparr>"

definition paid_gig :: json where
  "paid_gig = JObj [(''id'', JStr ''g1''), (''title'', JStr ''data cleanup''),
                    (''category'', JStr ''misc''), (''budget_sats'', JInt 500)]"

text \<open>
  A service that answers the calls with the replies \<open>rs\<close>, in this order, and every
  later call with \<open>d\<close>; a reply with a status and a JSON body.
\<close>

definition script :: "reply list \<Rightarrow> reply \<Rightarrow> nat \<Rightarrow> reply" where
  "script rs d = (\<lambda>k. if k < length rs then rs ! k else d)"

definition ok :: "int \<Rightarrow> json \<Rightarrow> reply" where
  "ok code b = Reply \<lparr>status_code = code, body = Some b\<rparr>"

text \<open>
  The agent at the start of a cycle, in front of a service that lists one open gig,
  answers the application with a conflict, lists the applications \<open>apps\<close> and
  accepts every deliverable; and the agent at step 3 of such a cycle.
\<close>

definition cycle_with :: "json \<Rightarrow> state" where
  "cycle_with apps = example_agent (script
     [ok 200 (JList [paid_gig]), Reply \<lparr>status_code = 409, body = None\<rparr>,
      ok 200 (JObj [(''applications'', apps)])] (ok 201 (JObj [])))"

definition check_with :: "json \<Rightarrow> state" where
  "check_with apps = example_agent (script
     [ok 200 (JObj [(''applications'', apps)])] (ok 201 (JObj [])))"

text \<open>An agent whose every network call is interrupted from outside.\<close>

definition interrupted :: state where
  "interrupted = example_agent (\<lambda>k. Raises KeyboardInterrupt)"

text \<open>
  An application is accepted when its status is \<open>accepted\<close>; the id of its gig is
  what the loop of \<^verbatim>\<open>run_once\<close> reads as \<^verbatim>\<open>app.get('gig', {}).get('id')\<close>; it is
  fulfillable when it is accepted and that id is true for \<^verbatim>\<open>if gig_id:\<close>.
\<close>

definition accepted :: "json \<Rightarrow> bool" where
  "accepted app = (py_item app ''status'' = Inr (JStr ''accepted''))"

definition app_gig_id :: "json \<Rightarrow> json" where
  "app_gig_id app =
     (case py_get app ''gig'' (JObj []) of
        Inr gig \<Rightarrow> (case py_get gig ''id'' JNull of Inr gig_id \<Rightarrow> gig_id | Inl e \<Rightarrow> JNull)
      | Inl e \<Rightarrow> JNull)"

definition fulfillable :: "json \<Rightarrow> bool" where
  "fulfillable app = (accepted app \<and> truthy (app_gig_id app))"

text \<open>The requests that submit a deliverable, and the gig each is for.\<close>

definition is_deliverable :: "request \<Rightarrow> bool" where
  "is_deliverable q = (meth q = POST \<and> url q = BASE_URL @ ''/deliverables'')"

definition delivered_gig :: "request \<Rightarrow> json" where
  "delivered_gig q =
     (case payload q of
        Some p \<Rightarrow> (case py_get p ''gig_id'' JNull of Inr g \<Rightarrow> g | Inl e \<Rightarrow> JNull)
      | None \<Rightarrow> JNull)"

definition orphan_application :: json where
  "orphan_application = JObj [(''status'', JStr ''accepted'')]"

definition won_application :: json where
  "won_application = JObj [(''status'', JStr ''accepted''), (''gig'', paid_gig)]"

definition pending_application :: json where
  "pending_application = JObj [(''status'', JStr ''pending''), (''gig'', paid_gig)]"

text \<open>
  A request carries the key \<open>k\<close> when its header \<^verbatim>\<open>x-api-key\<close> is \<open>k\<close>. A step
  from \<open>s\<close> to \<open>s'\<close> keeps the key \<open>k\<close> when the agent holds \<open>k\<close> after it, the
  state file is what it was, and every request made in between carries \<open>k\<close>. A
  computation is keyed by \<open>k\<close> when, started by an agent that holds \<open>k\<close>, it keeps
  \<open>k\<close>, however it ends.
\<close>

definition carries :: "json \<Rightarrow> request \<Rightarrow> bool" where
  "carries k q = (map_of (hdrs q) ''x-api-key'' = Some k)"

definition keeps_key :: "json \<Rightarrow> state \<Rightarrow> state \<Rightarrow> bool" where
  "keeps_key k s s' =
     (api_key s' = k \<and> state_file s' = state_file s
      \<and> (\<exists>new. sent s' = sent s @ new \<and> list_all (carries k) new))"

definition keyed :: "json \<Rightarrow> 'a prog \<Rightarrow> bool" where
  "keyed k m = (\<forall>s. api_key s = k \<longrightarrow> keeps_key k s (snd (m s)))"




section \<open>The matcher selects the first gig that matches in any way\<close>

lemmas run = bnd_def ret_def lift_def get_self_def print_def http_def Let_def

lemma readable_dict:
  "readable gig \<Longrightarrow> \<exists>r t. gig_caps_text gig = Inr r \<and> gig_text gig = Inr t"
  by (cases gig) (auto simp: readable_def gig_category_def gig_caps_text_def gig_text_def bindE_def)

lemma gig_matches_readable:
  assumes "readable gig"
  shows "gig_matches caps gig = Inr (on_category caps gig \<or> on_text caps gig)"
proof -
  from assms obtain c where c: "gig_category gig = Inr c"
    by (auto simp: readable_def split: sum.splits)
  from readable_dict[OF assms] obtain r t
    where r: "gig_caps_text gig = Inr r" and t: "gig_text gig = Inr t" by blast
  show ?thesis
    by (simp add: gig_matches_def bindE_def on_category_def on_text_def c r t)
qed

lemma scan_gigs_skips:
  assumes "\<forall>g \<in> set pre. readable g \<and> \<not> on_category caps g \<and> \<not> on_text caps g"
  shows "scan_gigs caps (pre @ rest) = scan_gigs caps rest"
  using assms by (induction pre) (simp_all add: gig_matches_readable bindE_def)

lemma scan_gigs_hit:
  assumes "readable g" and "on_category caps g \<or> on_text caps g"
  shows "scan_gigs caps (g # post) = Inr (Some g)"
  using assms by (auto simp add: gig_matches_readable bindE_def)

text \<open>
  C1, as the code has it. The loop over the gigs is a single scan: for each gig in
  turn it tests the category and required capabilities and then, for the same gig,
  the title and description, and it returns at the first gig that passes either
  test. So the gig selected is the first one, in list order, that matches on its
  category or required capabilities or on its text; a later gig is never preferred,
  whatever the kind of its match.
\<close>

theorem first_match_in_list_order:
  assumes "\<forall>g' \<in> set pre. readable g' \<and> \<not> on_category (capabilities self) g'
             \<and> \<not> on_text (capabilities self) g'"
    and "readable g"
    and "on_category (capabilities self) g \<or> on_text (capabilities self) g"
  shows "find_matching_gig self (JList (pre @ g # post)) = Inr g"
proof -
  have "scan_gigs (capabilities self) (pre @ g # post) = Inr (Some g)"
    using scan_gigs_skips[OF assms(1)] scan_gigs_hit[OF assms(2,3)] by simp
  then show ?thesis
    by (simp add: find_matching_gig_def bindE_def)
qed

theorem first_match_in_list_order_witness:
  "readable plain_gig
   \<and> \<not> on_category (capabilities (example_agent offline)) plain_gig
   \<and> \<not> on_text (capabilities (example_agent offline)) plain_gig
   \<and> readable text_only_gig
   \<and> (on_category (capabilities (example_agent offline)) text_only_gig
        \<or> on_text (capabilities (example_agent offline)) text_only_gig)
   \<and> find_matching_gig (example_agent offline) (JList ([plain_gig] @ text_only_gig # [category_gig]))
       = Inr text_only_gig"
proof -
  have e: "readable plain_gig
       \<and> \<not> on_category (capabilities (example_agent offline)) plain_gig
       \<and> \<not> on_text (capabilities (example_agent offline)) plain_gig"
    by code_simp
  then have h1: "\<forall>g' \<in> set [plain_gig]. readable g'
        \<and> \<not> on_category (capabilities (example_agent offline)) g'
        \<and> \<not> on_text (capabilities (example_agent offline)) g'"
    by simp
  have h2: "readable text_only_gig"
    by code_simp
  have h3: "on_category (capabilities (example_agent offline)) text_only_gig
        \<or> on_text (capabilities (example_agent offline)) text_only_gig"
    by code_simp
  from first_match_in_list_order[OF h1 h2 h3] e h2 h3 show ?thesis
    by blast
qed

text \<open>
  C1 as it is stated fails: with the capability \<open>writing\<close>, a gig titled
  \<open>Writing tips\<close> of category \<open>misc\<close> comes before a gig of category
  \<open>writing\<close>; the first matches on its text only, the second on its category, and
  the first is selected.
\<close>

theorem text_match_taken_before_later_category_match:
  "find_matching_gig (example_agent offline) (JList [text_only_gig, category_gig]) = Inr text_only_gig
   \<and> text_only_gig \<noteq> category_gig
   \<and> on_category CAPABILITIES category_gig
   \<and> \<not> on_category CAPABILITIES text_only_gig
   \<and> on_text CAPABILITIES text_only_gig"
  by code_simp

text \<open>
  C7. The matcher reads nothing of the agent but its capabilities, so for the same
  capabilities and the same list it returns the same gig; when every gig of a
  non-empty list is readable and none matches, on its category or required
  capabilities or on its text, it returns the first gig; for the empty list it
  returns \<^verbatim>\<open>None\<close>.
\<close>

theorem matcher_deterministic_with_fallback:
  "(capabilities a = capabilities b \<longrightarrow> find_matching_gig a gigs = find_matching_gig b gigs)
   \<and> ((\<forall>g \<in> set (first # others). readable g \<and> \<not> on_category (capabilities a) g
          \<and> \<not> on_text (capabilities a) g)
        \<longrightarrow> find_matching_gig a (JList (first # others)) = Inr first)
   \<and> find_matching_gig a (JList []) = Inr JNull"
proof (intro conjI impI)
  assume "capabilities a = capabilities b"
  then show "find_matching_gig a gigs = find_matching_gig b gigs"
    by (simp add: find_matching_gig_def)
next
  assume h: "\<forall>g \<in> set (first # others). readable g \<and> \<not> on_category (capabilities a) g
          \<and> \<not> on_text (capabilities a) g"
  have "scan_gigs (capabilities a) ((first # others) @ []) = scan_gigs (capabilities a) []"
    using h by (rule scan_gigs_skips)
  then show "find_matching_gig a (JList (first # others)) = Inr first"
    by (simp add: find_matching_gig_def bindE_def)
next
  show "find_matching_gig a (JList []) = Inr JNull"
    by (simp add: find_matching_gig_def bindE_def)
qed

theorem matcher_deterministic_with_fallback_witness:
  "capabilities (example_agent offline) = capabilities refused
   \<and> find_matching_gig (example_agent offline) (JList [plain_gig, category_gig])
       = find_matching_gig refused (JList [plain_gig, category_gig])
   \<and> readable plain_gig
   \<and> \<not> on_category (capabilities (example_agent offline)) plain_gig
   \<and> \<not> on_text (capabilities (example_agent offline)) plain_gig
   \<and> find_matching_gig (example_agent offline) (JList (plain_gig # [plain_gig])) = Inr plain_gig
   \<and> find_matching_gig (example_agent offline) (JList []) = Inr JNull"
proof -
  have h1: "capabilities (example_agent offline) = capabilities refused"
    by (simp add: example_agent_def refused_def)
  have e: "readable plain_gig
       \<and> \<not> on_category (capabilities (example_agent offline)) plain_gig
       \<and> \<not> on_text (capabilities (example_agent offline)) plain_gig"
    by code_simp
  then have h2: "\<forall>g \<in> set (plain_gig # [plain_gig]).
          readable g \<and> \<not> on_category (capabilities (example_agent offline)) g
          \<and> \<not> on_text (capabilities (example_agent offline)) g"
    by simp
  from matcher_deterministic_with_fallback
         [of "example_agent offline" refused
             "JList [plain_gig, category_gig]" plain_gig "[plain_gig]"]
       h1 h2 e
  show ?thesis by blast
qed

section \<open>Single operations\<close>

text \<open>
  C4, as the code has it. The submission succeeds exactly on the statuses 200 and
  201 (the list the code tests the status against); on any other status whose body
  decodes as JSON it prints the failure and returns false; and it makes one request,
  whatever the answer: there is no retry.
\<close>

theorem submit_deliverable_result:
  assumes "replies s (length (sent s)) = Reply r"
  shows "(fst (submit_deliverable gig_id content s) = Inr True
            \<longleftrightarrow> status_code r = 200 \<or> status_code r = 201)
       \<and> (status_code r \<noteq> 200 \<and> status_code r \<noteq> 201 \<and> body r = Some err \<longrightarrow>
            submit_deliverable gig_id content s =
              (Inr False, s\<lparr>sent := sent s @ [deliverable_request s gig_id content],
                              trace := trace s @ [PrintSubmissionFailed err]\<rparr>))
       \<and> sent (snd (submit_deliverable gig_id content s)) =
            sent s @ [deliverable_request s gig_id content]"
  using assms
  by (auto simp: submit_deliverable_def run response_json_def split: option.splits)

theorem submit_deliverable_result_witness:
  "replies refused (length (sent refused)) = Reply \<lparr>status_code = 500, body = Some (JObj [])\<rparr>
   \<and> status_code \<lparr>status_code = 500, body = Some (JObj [])\<rparr> \<noteq> 200
   \<and> status_code \<lparr>status_code = 500, body = Some (JObj [])\<rparr> \<noteq> 201
   \<and> body \<lparr>status_code = 500, body = Some (JObj [])\<rparr> = Some (JObj [])
   \<and> fst (submit_deliverable (JStr ''g1'') ''work'' refused) \<noteq> Inr True
   \<and> submit_deliverable (JStr ''g1'') ''work'' refused =
       (Inr False, refused
          \<lparr>sent := sent refused @ [deliverable_request refused (JStr ''g1'') ''work''],
           trace := trace refused @ [PrintSubmissionFailed (JObj [])]\<rparr>)
   \<and> sent (snd (submit_deliverable (JStr ''g1'') ''work'' refused)) =
       sent refused @ [deliverable_request refused (JStr ''g1'') ''work'']"
proof -
  have h: "replies refused (length (sent refused))
             = Reply \<lparr>status_code = 500, body = Some (JObj [])\<rparr>"
    by (simp add: refused_def example_agent_def always_def)
  have g: "status_code \<lparr>status_code = 500, body = Some (JObj [])\<rparr> \<noteq> 200
   \<and> status_code \<lparr>status_code = 500, body = Some (JObj [])\<rparr> \<noteq> 201
   \<and> body \<lparr>status_code = 500, body = Some (JObj [])\<rparr> = Some (JObj [])"
    by simp
  from submit_deliverable_result[OF h, of "JStr ''g1''" "''work''" "JObj []"] h g
  show ?thesis by blast
qed

text \<open>
  C4 as it is stated fails: 204 is a 2xx status, and a submission answered with 204
  returns false.
\<close>

theorem submit_204_is_a_failure:
  "(200::int) \<le> 204 \<and> (204::int) < 300
   \<and> fst (submit_deliverable (JStr ''g1'') ''work'' (example_agent (always 204 (Some (JObj [])))))
       = Inr False"
  by (simp add: submit_deliverable_def run response_json_def example_agent_def always_def)

text \<open>
  C10, as the code has it. On a 409 the apply operation returns \<^verbatim>\<open>None\<close> without
  raising, whatever the body; on any other status but 201 it returns \<^verbatim>\<open>None\<close> as
  well when the body decodes as JSON (it prints the decoded body); and whenever it
  returns, the result is not \<^verbatim>\<open>None\<close> exactly when the status is 201. So a
  conflict and a failure cannot be told apart from the value returned.
\<close>

theorem apply_to_gig_result:
  assumes "replies s (length (sent s)) = Reply r"
  shows "(status_code r = 409 \<longrightarrow>
            apply_to_gig gig_id proposal s =
              (Inr JNull, s\<lparr>sent := sent s @ [apply_request s gig_id proposal],
                              trace := trace s @ [PrintAlreadyApplied]\<rparr>))
       \<and> (status_code r \<noteq> 201 \<and> status_code r \<noteq> 409 \<and> body r = Some err \<longrightarrow>
            apply_to_gig gig_id proposal s =
              (Inr JNull, s\<lparr>sent := sent s @ [apply_request s gig_id proposal],
                              trace := trace s @ [PrintApplicationFailed err]\<rparr>))
       \<and> (\<forall>v. fst (apply_to_gig gig_id proposal s) = Inr v \<longrightarrow>
                (v \<noteq> JNull \<longleftrightarrow> status_code r = 201))"
  using assms
  by (auto simp: apply_to_gig_def run response_json_def bindE_def split: option.splits sum.splits)

text \<open>
  C10 as it is stated fails: the apply operation raises when a status other than
  201 and 409 comes with a body that is not JSON.
\<close>

theorem apply_raises_on_undecodable_failure:
  "fst (apply_to_gig (JStr ''g1'') JNull (example_agent (always 500 None))) = Inl JSONDecodeError"
  by (simp add: apply_to_gig_def run response_json_def example_agent_def always_def)

theorem apply_to_gig_result_witness:
  "replies conflicting (length (sent conflicting)) = Reply \<lparr>status_code = 409, body = None\<rparr>
   \<and> status_code \<lparr>status_code = 409, body = None\<rparr> = 409
   \<and> apply_to_gig (JStr ''g1'') JNull conflicting =
       (Inr JNull, conflicting\<lparr>sent := sent conflicting @ [apply_request conflicting (JStr ''g1'') JNull],
                              trace := trace conflicting @ [PrintAlreadyApplied]\<rparr>)
   \<and> replies refused (length (sent refused)) = Reply \<lparr>status_code = 500, body = Some (JObj [])\<rparr>
   \<and> status_code \<lparr>status_code = 500, body = Some (JObj [])\<rparr> \<noteq> 201
   \<and> status_code \<lparr>status_code = 500, body = Some (JObj [])\<rparr> \<noteq> 409
   \<and> body \<lparr>status_code = 500, body = Some (JObj [])\<rparr> = Some (JObj [])
   \<and> apply_to_gig (JStr ''g1'') JNull refused =
       (Inr JNull, refused\<lparr>sent := sent refused @ [apply_request refused (JStr ''g1'') JNull],
                          trace := trace refused @ [PrintApplicationFailed (JObj [])]\<rparr>)
   \<and> fst (apply_to_gig (JStr ''g1'') JNull refused) = Inr JNull"
proof -
  have h1: "replies conflicting (length (sent conflicting))
              = Reply \<lparr>status_code = 409, body = None\<rparr>"
    by (simp add: conflicting_def example_agent_def always_def)
  have h2: "replies refused (length (sent refused))
              = Reply \<lparr>status_code = 500, body = Some (JObj [])\<rparr>"
    by (simp add: refused_def example_agent_def always_def)
  have g: "status_code \<lparr>status_code = 409, body = None\<rparr> = 409
     \<and> status_code \<lparr>status_code = 500, body = Some (JObj [])\<rparr> \<noteq> 201
     \<and> status_code \<lparr>status_code = 500, body = Some (JObj [])\<rparr> \<noteq> 409
     \<and> body \<lparr>status_code = 500, body = Some (JObj [])\<rparr> = Some (JObj [])"
    by simp
  from apply_to_gig_result[OF h1, of "JStr ''g1''" JNull]
       apply_to_gig_result[OF h2, of "JStr ''g1''" JNull "JObj []"] h1 h2 g
  show ?thesis by simp
qed

section \<open>The cycle\<close>

text \<open>
  C2, as the code has it. When the listing of the gigs is answered with a status
  other than 200, \<^verbatim>\<open>browse_gigs\<close> prints the failure and returns the empty list
  without raising. \<^verbatim>\<open>run_once\<close> then finds no gigs, prints that there are none and
  returns: the cycle ends normally after this one request, and neither applies, nor
  checks the applications, nor submits anything.
\<close>

theorem failed_listing_ends_cycle:
  assumes "replies s (length (sent s)) = Reply r" and "status_code r \<noteq> 200"
  shows "browse_gigs status s =
           (Inr (JList []), s\<lparr>sent := sent s @ [gigs_request s status],
                               trace := trace s @ [PrintFetchGigsFailed (status_code r)]\<rparr>)
       \<and> run_once s =
           (Inr (), s\<lparr>sent := sent s @ [gigs_request s ''open''],
                       trace := trace s @ [PrintRule, PrintRunningCycle (name s), PrintRule,
                                           PrintFetchGigsFailed (status_code r), PrintNoOpenGigs]\<rparr>)"
  using assms
  by (simp add: browse_gigs_def run_once_def run gigs_request_def headers_def)

theorem failed_listing_ends_cycle_witness:
  "replies refused (length (sent refused)) = Reply \<lparr>status_code = 500, body = Some (JObj [])\<rparr>
   \<and> status_code \<lparr>status_code = 500, body = Some (JObj [])\<rparr> \<noteq> 200
   \<and> browse_gigs ''open'' refused =
       (Inr (JList []), refused\<lparr>sent := sent refused @ [gigs_request refused ''open''],
          trace := trace refused
            @ [PrintFetchGigsFailed (status_code \<lparr>status_code = 500, body = Some (JObj [])\<rparr>)]\<rparr>)
   \<and> run_once refused =
       (Inr (), refused\<lparr>sent := sent refused @ [gigs_request refused ''open''],
          trace := trace refused @ [PrintRule, PrintRunningCycle (name refused), PrintRule,
            PrintFetchGigsFailed (status_code \<lparr>status_code = 500, body = Some (JObj [])\<rparr>),
            PrintNoOpenGigs]\<rparr>)"
proof -
  have h: "replies refused (length (sent refused))
             = Reply \<lparr>status_code = 500, body = Some (JObj [])\<rparr>"
    by (simp add: refused_def example_agent_def always_def)
  have g: "status_code \<lparr>status_code = 500, body = Some (JObj [])\<rparr> \<noteq> 200"
    by simp
  from failed_listing_ends_cycle[OF h g, of "''open''"] h g
  show ?thesis by blast
qed

text \<open>
  C2 as it is stated fails: after a listing answered with 500 the cycle makes no
  other request, so the applications are not checked.
\<close>

theorem failed_listing_skips_the_applications:
  "fst (browse_gigs ''open'' refused) = Inr (JList [])
   \<and> fst (run_once refused) = Inr ()
   \<and> sent (snd (run_once refused)) = [gigs_request refused ''open'']
   \<and> gigs_request refused ''open'' \<noteq> applications_request refused"
  by (simp add: browse_gigs_def run_once_def run gigs_request_def applications_request_def
        headers_def refused_def example_agent_def always_def)

text \<open>
  C5. An apply call answered with 409 prints that the agent has already applied and
  returns \<^verbatim>\<open>None\<close> without raising; and a cycle that gets this answer to its
  application goes on with its next step, the check of the applications, from the
  state the apply call leaves.
\<close>

theorem conflict_is_absorbed:
  assumes "browse_gigs ''open'' (banner s) = (Inr gigs, s2)"
    and "truthy gigs"
    and "find_matching_gig s gigs = Inr matching_gig"
    and "truthy matching_gig"
    and "py_item matching_gig ''title'' = Inr t"
    and "py_item matching_gig ''budget_sats'' = Inr b"
    and "py_item matching_gig ''id'' = Inr gig_id"
    and "replies s2 (length (sent s2)) = Reply r"
    and "status_code r = 409"
  shows "apply_to_gig gig_id JNull (s2\<lparr>trace := trace s2 @ [PrintFoundMatching t, PrintBudget b]\<rparr>) =
           (Inr JNull, s2\<lparr>sent := sent s2 @ [apply_request s2 gig_id JNull],
                           trace := trace s2 @ [PrintFoundMatching t, PrintBudget b,
                                                PrintAlreadyApplied]\<rparr>)
       \<and> run_once s =
           check_and_work (s2\<lparr>sent := sent s2 @ [apply_request s2 gig_id JNull],
                               trace := trace s2 @ [PrintFoundMatching t, PrintBudget b,
                                                    PrintAlreadyApplied]\<rparr>)"
proof -
  have ap: "apply_to_gig gig_id JNull (s2\<lparr>trace := trace s2 @ [PrintFoundMatching t, PrintBudget b]\<rparr>) =
           (Inr JNull, s2\<lparr>sent := sent s2 @ [apply_request s2 gig_id JNull],
                           trace := trace s2 @ [PrintFoundMatching t, PrintBudget b,
                                                PrintAlreadyApplied]\<rparr>)"
    using assms(8,9) by (simp add: apply_to_gig_def run apply_request_def headers_def)
  have "run_once s =
          check_and_work (s2\<lparr>sent := sent s2 @ [apply_request s2 gig_id JNull],
                               trace := trace s2 @ [PrintFoundMatching t, PrintBudget b,
                                                    PrintAlreadyApplied]\<rparr>)"
    using assms(1)[unfolded banner_def] assms(2-7) ap
    by (simp add: run_once_def bnd_def ret_def lift_def print_def get_self_def)
  with ap show ?thesis by simp
qed

theorem conflict_is_absorbed_witness:
  "fst (browse_gigs ''open'' (banner (cycle_with (JList [])))) = Inr (JList [paid_gig])
   \<and> truthy (JList [paid_gig])
   \<and> find_matching_gig (cycle_with (JList [])) (JList [paid_gig]) = Inr paid_gig
   \<and> truthy paid_gig
   \<and> py_item paid_gig ''title'' = Inr (JStr ''data cleanup'')
   \<and> py_item paid_gig ''budget_sats'' = Inr (JInt 500)
   \<and> py_item paid_gig ''id'' = Inr (JStr ''g1'')
   \<and> replies (snd (browse_gigs ''open'' (banner (cycle_with (JList [])))))
        (length (sent (snd (browse_gigs ''open'' (banner (cycle_with (JList [])))))))
       = Reply \<lparr>status_code = 409, body = None\<rparr>
   \<and> status_code \<lparr>status_code = 409, body = None\<rparr> = 409
   \<and> run_once (cycle_with (JList [])) =
       check_and_work
         ((snd (browse_gigs ''open'' (banner (cycle_with (JList [])))))
            \<lparr>sent := sent (snd (browse_gigs ''open'' (banner (cycle_with (JList [])))))
                 @ [apply_request (snd (browse_gigs ''open'' (banner (cycle_with (JList [])))))
                      (JStr ''g1'') JNull],
             trace := trace (snd (browse_gigs ''open'' (banner (cycle_with (JList [])))))
                 @ [PrintFoundMatching (JStr ''data cleanup''), PrintBudget (JInt 500),
                    PrintAlreadyApplied]\<rparr>)"
proof -
  have b: "fst (browse_gigs ''open'' (banner (cycle_with (JList [])))) = Inr (JList [paid_gig])"
    by (simp add: browse_gigs_def run banner_def cycle_with_def example_agent_def script_def ok_def response_json_def)
  then have h1: "browse_gigs ''open'' (banner (cycle_with (JList []))) =
      (Inr (JList [paid_gig]), snd (browse_gigs ''open'' (banner (cycle_with (JList [])))))"
    by (metis prod.collapse)
  have h3: "find_matching_gig (cycle_with (JList [])) (JList [paid_gig]) = Inr paid_gig"
    by code_simp
  have h4: "truthy paid_gig \<and> py_item paid_gig ''title'' = Inr (JStr ''data cleanup'')
     \<and> py_item paid_gig ''budget_sats'' = Inr (JInt 500)
     \<and> py_item paid_gig ''id'' = Inr (JStr ''g1'')"
    by (simp add: paid_gig_def)
  have h8: "replies (snd (browse_gigs ''open'' (banner (cycle_with (JList [])))))
        (length (sent (snd (browse_gigs ''open'' (banner (cycle_with (JList [])))))))
       = Reply \<lparr>status_code = 409, body = None\<rparr>"
    by (simp add: browse_gigs_def run banner_def cycle_with_def example_agent_def script_def ok_def response_json_def)
  have h9: "status_code \<lparr>status_code = 409, body = None\<rparr> = 409"
    by simp
  have h2: "truthy (JList [paid_gig])" by simp
  from conflict_is_absorbed[OF h1 h2 h3 _ _ _ _ h8 h9, of "JStr ''data cleanup''" "JInt 500" "JStr ''g1''"]
       h4 b h2 h3 h8 h9
  show ?thesis by simp
qed

section \<open>Registration\<close>

text \<open>
  C6. An agent that holds a non-empty key registers without a network call: it
  prints that it is registered and returns true, and nothing else changes. An agent
  constructed over a state file that holds a non-empty key holds that key, the user
  id and the name of the file, and its registration makes no network call, leaves the
  file as it is and returns true.
\<close>

theorem registered_agent_registers_once:
  "(truthy (api_key s) \<longrightarrow>
      register s = (Inr True, s\<lparr>trace := trace s @ [PrintAlreadyRegistered (name s)]\<rparr>))
   \<and> (state_file s = Some (Content (JObj kv)) \<and> map_of kv ''api_key'' = Some k \<and> truthy k \<longrightarrow>
        fst (bnd (init nm caps) (\<lambda>u. register) s) = Inr True
      \<and> sent (snd (bnd (init nm caps) (\<lambda>u. register) s)) = sent s
      \<and> state_file (snd (bnd (init nm caps) (\<lambda>u. register) s)) = state_file s
      \<and> api_key (snd (bnd (init nm caps) (\<lambda>u. register) s)) = k
      \<and> user_id (snd (bnd (init nm caps) (\<lambda>u. register) s)) =
          (case map_of kv ''user_id'' of Some u \<Rightarrow> u | None \<Rightarrow> JNull)
      \<and> name (snd (bnd (init nm caps) (\<lambda>u. register) s)) =
          (case map_of kv ''name'' of Some n \<Rightarrow> n | None \<Rightarrow> JStr nm))"
  by (simp add: register_def init_def load_state_def run)

theorem registered_agent_registers_once_witness:
  "truthy (api_key (example_agent offline))
   \<and> register (example_agent offline) =
       (Inr True, (example_agent offline)\<lparr>trace := trace (example_agent offline)
          @ [PrintAlreadyRegistered (name (example_agent offline))]\<rparr>)
   \<and> state_file returning = Some (Content (JObj
        [(''api_key'', JStr ''key-1''), (''user_id'', JStr ''u-1''),
         (''name'', JStr ''ExampleAgent-ab12'')]))
   \<and> map_of [(''api_key'', JStr ''key-1''), (''user_id'', JStr ''u-1''),
         (''name'', JStr ''ExampleAgent-ab12'')] ''api_key'' = Some (JStr ''key-1'')
   \<and> truthy (JStr ''key-1'')
   \<and> fst (bnd (init ''ExampleAgent-zz99'' CAPABILITIES) (\<lambda>u. register) returning) = Inr True
   \<and> sent (snd (bnd (init ''ExampleAgent-zz99'' CAPABILITIES) (\<lambda>u. register) returning)) = []
   \<and> state_file (snd (bnd (init ''ExampleAgent-zz99'' CAPABILITIES) (\<lambda>u. register) returning))
       = state_file returning
   \<and> api_key (snd (bnd (init ''ExampleAgent-zz99'' CAPABILITIES) (\<lambda>u. register) returning))
       = JStr ''key-1''
   \<and> user_id (snd (bnd (init ''ExampleAgent-zz99'' CAPABILITIES) (\<lambda>u. register) returning))
       = JStr ''u-1''
   \<and> name (snd (bnd (init ''ExampleAgent-zz99'' CAPABILITIES) (\<lambda>u. register) returning))
       = JStr ''ExampleAgent-ab12''"
proof -
  have h1: "truthy (api_key (example_agent offline))"
    by (simp add: example_agent_def)
  have h2: "state_file returning = Some (Content (JObj
        [(''api_key'', JStr ''key-1''), (''user_id'', JStr ''u-1''),
         (''name'', JStr ''ExampleAgent-ab12'')]))
     \<and> map_of [(''api_key'', JStr ''key-1''), (''user_id'', JStr ''u-1''),
         (''name'', JStr ''ExampleAgent-ab12'')] ''api_key'' = Some (JStr ''key-1'')
     \<and> truthy (JStr ''key-1'')"
    by (simp add: returning_def)
  have h3: "sent returning = []"
    by (simp add: returning_def example_agent_def)
  from registered_agent_registers_once
         [of "example_agent offline" "[(''api_key'', JStr ''key-1''), (''user_id'', JStr ''u-1''),
         (''name'', JStr ''ExampleAgent-ab12'')]" "JStr ''key-1''" "''ExampleAgent-zz99''"
         CAPABILITIES]
       registered_agent_registers_once
         [of returning "[(''api_key'', JStr ''key-1''), (''user_id'', JStr ''u-1''),
         (''name'', JStr ''ExampleAgent-ab12'')]" "JStr ''key-1''" "''ExampleAgent-zz99''"
         CAPABILITIES]
       h1 h2 h3
  show ?thesis by simp
qed

section \<open>Working on the accepted applications\<close>

lemma do_work_sent: "do_work gig s = (r, s') \<Longrightarrow> sent s' = sent s"
  by (auto simp: do_work_def run sleep_def split: sum.splits if_splits prod.splits)

lemma submit_sent:
  "submit_deliverable g c s = (r, s') \<Longrightarrow> sent s' = sent s @ [deliverable_request s g c]"
  by (auto simp: submit_deliverable_def run response_json_def
           split: sum.splits if_splits prod.splits reply.splits option.splits)

lemma deliverable_request_is: 
  "is_deliverable (deliverable_request s g c)" "delivered_gig (deliverable_request s g c) = g"
  by (simp_all add: is_deliverable_def delivered_gig_def deliverable_request_def)

lemma work_on_sent:
  assumes "work_on app s = (Inr (), s')"
  shows "\<exists>new. sent s' = sent s @ new \<and> list_all is_deliverable new
           \<and> map delivered_gig new = map app_gig_id (filter fulfillable [app])"
proof (cases "fulfillable app")
  case False
  with assms have "sent s' = sent s"
    by (auto simp: work_on_def bnd_def lift_def ret_def fulfillable_def accepted_def app_gig_id_def
        split: sum.splits if_splits prod.splits)
  with False show ?thesis by simp
next
  case True
  then obtain gig where g: "py_item app ''status'' = Inr (JStr ''accepted'')"
      "py_get app ''gig'' (JObj []) = Inr gig" "py_get gig ''id'' JNull = Inr (app_gig_id app)"
      "truthy (app_gig_id app)"
    by (auto simp: fulfillable_def accepted_def app_gig_id_def split: sum.splits)
  from assms g obtain s1 s2 d where
      w: "do_work gig s1 = (Inr d, s2)" "sent s1 = sent s"
      "submit_deliverable (app_gig_id app) d s2 = (Inr True, s') \<or>
       submit_deliverable (app_gig_id app) d s2 = (Inr False, s')"
    by (auto simp: work_on_def bnd_def lift_def ret_def print_def
        split: sum.splits if_splits prod.splits)
  from w(3) have "sent s' = sent s2 @ [deliverable_request s2 (app_gig_id app) d]"
    by (auto dest: submit_sent)
  with do_work_sent[OF w(1)] w(2)
  have "sent s' = sent s @ [deliverable_request s2 (app_gig_id app) d]" by simp
  with True show ?thesis by (simp add: deliverable_request_is)
qed

lemma work_on_accepted_sent:
  assumes "work_on_accepted apps s = (Inr (), s')"
  shows "\<exists>new. sent s' = sent s @ new \<and> list_all is_deliverable new
           \<and> map delivered_gig new = map app_gig_id (filter fulfillable apps)"
  using assms
proof (induction apps arbitrary: s)
  case Nil
  then show ?case by (simp add: ret_def)
next
  case (Cons app rest)
  from Cons.prems obtain s1 where
      a: "work_on app s = (Inr (), s1)" and b: "work_on_accepted rest s1 = (Inr (), s')"
    by (auto simp: bnd_def split: sum.splits prod.splits)
  from work_on_sent[OF a] obtain n1 where
      n1: "sent s1 = sent s @ n1" "list_all is_deliverable n1"
          "map delivered_gig n1 = map app_gig_id (filter fulfillable [app])" by blast
  from Cons.IH[OF b] obtain n2 where
      n2: "sent s' = sent s1 @ n2" "list_all is_deliverable n2"
          "map delivered_gig n2 = map app_gig_id (filter fulfillable rest)" by blast
  show ?case
    by (rule exI[of _ "n1 @ n2"]) (use n1 n2 in auto)
qed

lemma check_applications_sent:
  "check_applications s = (r, s') \<Longrightarrow> sent s' = sent s @ [applications_request s]"
  by (auto simp: check_applications_def run response_json_def
           split: sum.splits if_splits prod.splits reply.splits option.splits)

lemma applications_request_not_deliverable: "\<not> is_deliverable (applications_request s)"
  by (simp add: is_deliverable_def applications_request_def)

lemma browse_gigs_sent:
  "browse_gigs status s = (r, s') \<Longrightarrow> sent s' = sent s @ [gigs_request s status]"
  by (auto simp: browse_gigs_def run response_json_def
           split: sum.splits if_splits prod.splits reply.splits option.splits)

lemma apply_to_gig_sent:
  "apply_to_gig g p s = (r, s') \<Longrightarrow> sent s' = sent s @ [apply_request s g p]"
  by (auto simp: apply_to_gig_def run response_json_def
           split: sum.splits if_splits prod.splits reply.splits option.splits)

lemma requests_not_deliverable:
  "\<not> is_deliverable (gigs_request s status)" "\<not> is_deliverable (apply_request s g p)"
  by (simp_all add: is_deliverable_def gigs_request_def apply_request_def BASE_URL_def)

text \<open>
  A cycle that ends without an exception either stops at an empty listing of the
  gigs, after its one request, or is its steps 3 and 4, run from a state before
  which it has submitted no deliverable.
\<close>

lemma deliverables_of_a_cycle:
  assumes "run_once s = (Inr (), s')"
  shows "sent s' = sent s @ [gigs_request s ''open'']
       \<or> (\<exists>s3 pre. check_and_work s3 = (Inr (), s') \<and> sent s3 = sent s @ pre
              \<and> filter is_deliverable pre = [])"
proof -
  obtain r0 s2 where b: "browse_gigs ''open'' (banner s) = (r0, s2)"
    by (cases "browse_gigs ''open'' (banner s)")
  from browse_gigs_sent[OF b] have s2: "sent s2 = sent s @ [gigs_request s ''open'']"
    by (simp add: banner_def gigs_request_def headers_def)
  from assms b obtain gigs where r0: "r0 = Inr gigs"
    by (cases r0) (auto simp: run_once_def bnd_def get_self_def print_def banner_def)
  show ?thesis
  proof (cases "truthy gigs")
    case False
    with assms b r0 have "s' = s2\<lparr>trace := trace s2 @ [PrintNoOpenGigs]\<rparr>"
      by (auto simp: run_once_def bnd_def get_self_def print_def banner_def)
    with s2 show ?thesis by simp
  next
    case True
    from assms b r0 True obtain mg where mg: "find_matching_gig s gigs = Inr mg"
      by (cases "find_matching_gig s gigs")
         (auto simp: run_once_def bnd_def get_self_def print_def banner_def lift_def)
    show ?thesis
    proof (cases "truthy mg")
      case False
      with assms b r0 True mg have "check_and_work s2 = (Inr (), s')"
        by (auto simp: run_once_def bnd_def get_self_def print_def banner_def lift_def ret_def)
      with s2 show ?thesis
        by (intro disjI2 exI[of _ s2] exI[of _ "[gigs_request s ''open'']"])
           (simp add: requests_not_deliverable)
    next
      case mgt: True
      from assms b r0 True mg mgt obtain t bd gid s3 x where
          a: "py_item mg ''id'' = Inr gid"
             "apply_to_gig gid JNull (s2\<lparr>trace := trace s2 @ [PrintFoundMatching t, PrintBudget bd]\<rparr>)
                = (Inr x, s3)"
             "check_and_work s3 = (Inr (), s')"
        by (auto simp: run_once_def bnd_def get_self_def print_def banner_def lift_def ret_def
            split: sum.splits prod.splits)
      from apply_to_gig_sent[OF a(2)] s2
      have "sent s3 = sent s @ [gigs_request s ''open'',
              apply_request (s2\<lparr>trace := trace s2 @ [PrintFoundMatching t, PrintBudget bd]\<rparr>) gid JNull]"
        by simp
      with a(3) show ?thesis
        by (intro disjI2 exI[of _ s3]
              exI[of _ "[gigs_request s ''open'',
                apply_request (s2\<lparr>trace := trace s2 @ [PrintFoundMatching t, PrintBudget bd]\<rparr>) gid JNull]"])
           (simp add: requests_not_deliverable)
    qed
  qed
qed

text \<open>
  C3, as the code has it. When steps 3 and 4 of a cycle end without an exception,
  the deliverables submitted in them are, in the order of the listing, one for each
  listed application that is accepted and whose embedded gig has a non-empty id, each
  for that gig, and none for any other application. So there are as many
  deliverables as fulfillable applications, at most as many as accepted ones, and
  exactly as many when every accepted application is fulfillable.
\<close>

theorem one_deliverable_for_each_fulfillable_application:
  assumes "check_and_work s = (Inr (), s')"
    and "check_applications (s\<lparr>trace := trace s @ [PrintChecking]\<rparr>) = (Inr apps, s1)"
    and "py_iter apps = Inr listed"
  shows "map delivered_gig (filter is_deliverable (drop (length (sent s)) (sent s')))
           = map app_gig_id (filter fulfillable listed)
       \<and> length (filter is_deliverable (drop (length (sent s)) (sent s')))
           = length (filter fulfillable listed)
       \<and> length (filter fulfillable listed) \<le> length (filter accepted listed)
       \<and> (list_all fulfillable (filter accepted listed) \<longrightarrow>
            length (filter is_deliverable (drop (length (sent s)) (sent s')))
              = length (filter accepted listed))"
proof -
  from assms have w: "work_on_accepted listed s1 = (Inr (), s')"
    by (simp add: check_and_work_def bnd_def print_def lift_def)
  from check_applications_sent[OF assms(2)]
  have s1: "sent s1 = sent s @ [applications_request s]"
    by (simp add: applications_request_def headers_def)
  from work_on_accepted_sent[OF w] obtain new where
      n: "sent s' = sent s1 @ new" "list_all is_deliverable new"
         "map delivered_gig new = map app_gig_id (filter fulfillable listed)" by blast
  have f: "filter is_deliverable (drop (length (sent s)) (sent s')) = new"
    using n(1,2) s1 by (simp add: applications_request_not_deliverable list_all_iff)
  have m: "map delivered_gig (filter is_deliverable (drop (length (sent s)) (sent s')))
           = map app_gig_id (filter fulfillable listed)"
    using f n(3) by simp
  have l: "length (filter is_deliverable (drop (length (sent s)) (sent s')))
           = length (filter fulfillable listed)"
    using m by (metis length_map)
  have sub: "filter fulfillable listed = filter fulfillable (filter accepted listed)"
    by (auto simp: fulfillable_def intro: filter_cong)
  have le: "length (filter fulfillable listed) \<le> length (filter accepted listed)"
    by (subst sub) (rule length_filter_le)
  have eq: "list_all fulfillable (filter accepted listed) \<Longrightarrow>
            filter fulfillable listed = filter accepted listed"
    by (subst sub) (auto simp: list_all_iff intro: filter_cong)
  from m l le eq show ?thesis by simp
qed

theorem one_deliverable_for_each_fulfillable_application_witness:
  "fst (check_and_work (check_with (JList [won_application, pending_application, orphan_application])))
     = Inr ()
   \<and> fst (check_applications
        ((check_with (JList [won_application, pending_application, orphan_application]))
           \<lparr>trace := trace (check_with (JList [won_application, pending_application, orphan_application]))
                       @ [PrintChecking]\<rparr>))
       = Inr (JList [won_application, pending_application, orphan_application])
   \<and> py_iter (JList [won_application, pending_application, orphan_application])
       = Inr [won_application, pending_application, orphan_application]
   \<and> map delivered_gig (filter is_deliverable
        (drop (length (sent (check_with (JList [won_application, pending_application, orphan_application]))))
           (sent (snd (check_and_work
              (check_with (JList [won_application, pending_application, orphan_application])))))))
       = map app_gig_id (filter fulfillable [won_application, pending_application, orphan_application])
   \<and> map app_gig_id (filter fulfillable [won_application, pending_application, orphan_application])
       = [JStr ''g1'']
   \<and> length (filter accepted [won_application, pending_application, orphan_application]) = 2
   \<and> fst (check_and_work (check_with (JList [won_application, pending_application]))) = Inr ()
   \<and> list_all fulfillable (filter accepted [won_application, pending_application])
   \<and> length (filter is_deliverable
        (drop (length (sent (check_with (JList [won_application, pending_application]))))
           (sent (snd (check_and_work (check_with (JList [won_application, pending_application])))))))
       = length (filter accepted [won_application, pending_application])"
proof -
  let ?A = "[won_application, pending_application, orphan_application]"
  let ?B = "[won_application, pending_application]"
  have a1: "fst (check_and_work (check_with (JList ?A))) = Inr ()"
    by code_simp
  then have h1: "check_and_work (check_with (JList ?A))
                   = (Inr (), snd (check_and_work (check_with (JList ?A))))"
    by (metis prod.collapse)
  have a2: "fst (check_applications
        ((check_with (JList ?A))\<lparr>trace := trace (check_with (JList ?A)) @ [PrintChecking]\<rparr>))
       = Inr (JList ?A)"
    by code_simp
  then have h2: "check_applications
        ((check_with (JList ?A))\<lparr>trace := trace (check_with (JList ?A)) @ [PrintChecking]\<rparr>)
       = (Inr (JList ?A), snd (check_applications
        ((check_with (JList ?A))\<lparr>trace := trace (check_with (JList ?A)) @ [PrintChecking]\<rparr>)))"
    by (metis prod.collapse)
  have h3: "py_iter (JList ?A) = Inr ?A" by simp
  have b1: "fst (check_and_work (check_with (JList ?B))) = Inr ()"
    by code_simp
  then have k1: "check_and_work (check_with (JList ?B))
                   = (Inr (), snd (check_and_work (check_with (JList ?B))))"
    by (metis prod.collapse)
  have b2: "fst (check_applications
        ((check_with (JList ?B))\<lparr>trace := trace (check_with (JList ?B)) @ [PrintChecking]\<rparr>))
       = Inr (JList ?B)"
    by code_simp
  then have k2: "check_applications
        ((check_with (JList ?B))\<lparr>trace := trace (check_with (JList ?B)) @ [PrintChecking]\<rparr>)
       = (Inr (JList ?B), snd (check_applications
        ((check_with (JList ?B))\<lparr>trace := trace (check_with (JList ?B)) @ [PrintChecking]\<rparr>)))"
    by (metis prod.collapse)
  have k3: "py_iter (JList ?B) = Inr ?B" by simp
  have c1: "map app_gig_id (filter fulfillable ?A) = [JStr ''g1'']"
    by code_simp
  have c2: "length (filter accepted ?A) = 2"
    by code_simp
  have c3: "list_all fulfillable (filter accepted ?B)"
    by code_simp
  from one_deliverable_for_each_fulfillable_application[OF h1 h2 h3]
       one_deliverable_for_each_fulfillable_application[OF k1 k2 k3]
       a1 a2 h3 b1 c1 c2 c3
  show ?thesis by simp
qed

text \<open>
  C3 as it is stated fails: in a cycle whose listing holds one application, accepted
  but without an embedded gig, no deliverable is submitted.
\<close>

theorem accepted_without_gig_is_not_fulfilled:
  "fst (run_once (cycle_with (JList [orphan_application]))) = Inr ()
   \<and> length (filter accepted [orphan_application]) = 1
   \<and> sent (snd (run_once (cycle_with (JList [orphan_application])))) =
       [gigs_request (cycle_with (JList [orphan_application])) ''open'',
        apply_request (cycle_with (JList [orphan_application])) (JStr ''g1'') JNull,
        applications_request (cycle_with (JList [orphan_application]))]
   \<and> filter is_deliverable (sent (snd (run_once (cycle_with (JList [orphan_application]))))) = []"
  by code_simp

section \<open>The key of the agent\<close>

text \<open>
  That a computation is keyed is shown along its structure: the primitives are, a
  request is when it carries the key, and sequencing preserves it.
\<close>

lemma keeps_key_refl: "api_key s = k \<Longrightarrow> keeps_key k s s"
  by (simp add: keeps_key_def)

lemma keeps_key_trans: "keeps_key k s s1 \<Longrightarrow> keeps_key k s1 s2 \<Longrightarrow> keeps_key k s s2"
  by (auto simp: keeps_key_def)

lemma keyed_ret: "keyed k (ret x)"
  by (simp add: keyed_def ret_def keeps_key_refl)

lemma keyed_lift: "keyed k (lift r)"
  by (simp add: keyed_def lift_def keeps_key_refl)

lemma keyed_print: "keyed k (print ev)"
  by (simp add: keyed_def print_def keeps_key_def)

lemma keyed_sleep: "keyed k (sleep d)"
  by (simp add: keyed_def sleep_def keeps_key_def Let_def)

lemma keyed_http: "carries k req \<Longrightarrow> keyed k (http req)"
  by (auto simp: keyed_def http_def keeps_key_def Let_def split: reply.splits)

lemma keyed_bnd:
  assumes "keyed k m" and "\<And>x. keyed k (f x)"
  shows "keyed k (bnd m f)"
proof (unfold keyed_def, intro allI impI)
  fix s :: state
  assume a: "api_key s = k"
  with assms(1) have m: "keeps_key k s (snd (m s))" by (simp add: keyed_def)
  show "keeps_key k s (snd (bnd m f s))"
  proof (cases "m s")
    case (Pair r s1)
    show ?thesis
    proof (cases r)
      case (Inl e)
      with Pair m show ?thesis by (simp add: bnd_def)
    next
      case (Inr x)
      from m Pair have k1: "api_key s1 = k" by (simp add: keeps_key_def)
      with assms(2)[of x] have "keeps_key k s1 (snd (f x s1))" by (simp add: keyed_def)
      with m Pair Inr show ?thesis by (auto simp: bnd_def intro: keeps_key_trans)
    qed
  qed
qed

lemma keyed_get_self:
  assumes "\<And>self. api_key self = k \<Longrightarrow> keyed k (f self)"
  shows "keyed k (bnd get_self f)"
  using assms by (simp add: keyed_def bnd_def get_self_def)

lemma carries_headers: "truthy k \<Longrightarrow> api_key self = k \<Longrightarrow> map_of (headers self) ''x-api-key'' = Some k"
  by (simp add: headers_def)

lemmas keyed_rules = keyed_ret keyed_lift keyed_print keyed_sleep keyed_bnd

lemma keyed_register: "truthy k \<Longrightarrow> keyed k register"
  unfolding register_def
  by (rule keyed_get_self) (simp add: keyed_rules)

lemma keyed_browse_gigs: "truthy k \<Longrightarrow> keyed k (browse_gigs status)"
  unfolding browse_gigs_def
  by (rule keyed_get_self)
     (auto intro!: keyed_rules keyed_http simp: carries_def gigs_request_def carries_headers)

lemma keyed_apply_to_gig: "truthy k \<Longrightarrow> keyed k (apply_to_gig gig_id proposal)"
  unfolding apply_to_gig_def
  by (rule keyed_get_self)
     (auto intro!: keyed_rules keyed_http simp: carries_def apply_request_def carries_headers)

lemma keyed_check_applications: "truthy k \<Longrightarrow> keyed k check_applications"
  unfolding check_applications_def
  by (rule keyed_get_self)
     (auto intro!: keyed_rules keyed_http simp: carries_def applications_request_def carries_headers)

lemma keyed_submit_deliverable: "truthy k \<Longrightarrow> keyed k (submit_deliverable gig_id content)"
  unfolding submit_deliverable_def
  by (rule keyed_get_self)
     (auto intro!: keyed_rules keyed_http simp: carries_def deliverable_request_def carries_headers)

lemma keyed_do_work: "keyed k (do_work gig)"
  unfolding do_work_def
  by (rule keyed_get_self) (auto intro!: keyed_rules)

lemma keyed_work_on: "truthy k \<Longrightarrow> keyed k (work_on app)"
  unfolding work_on_def
  by (auto intro!: keyed_rules keyed_do_work keyed_submit_deliverable)

lemma keyed_work_on_accepted: "truthy k \<Longrightarrow> keyed k (work_on_accepted apps)"
  by (induction apps) (auto intro!: keyed_rules keyed_work_on)

lemma keyed_check_and_work: "truthy k \<Longrightarrow> keyed k check_and_work"
  unfolding check_and_work_def
  by (auto intro!: keyed_rules keyed_check_applications keyed_work_on_accepted)

lemma keyed_run_once: "truthy k \<Longrightarrow> keyed k run_once"
  unfolding run_once_def
  by (rule keyed_get_self)
     (auto intro!: keyed_rules keyed_browse_gigs keyed_apply_to_gig keyed_check_and_work)

lemma keyed_cycle: 
  assumes "truthy k" shows "keyed k (cycle interval_seconds)"
proof -
  have "keyed k (\<lambda>s. case run_once s of
                 (Inl e, s') \<Rightarrow> if is_Exception e then print (PrintError e) s' else (Inl e, s')
               | (Inr u, s') \<Rightarrow> (Inr (), s'))"
    using keyed_run_once[OF assms]
    by (auto simp: keyed_def print_def keeps_key_def split: prod.splits sum.splits)
  then show ?thesis
    unfolding cycle_def by (auto intro!: keyed_rules)
qed

lemma keyed_run_forever:
  assumes "truthy k" and "run_forever i s = Some y"
  shows "api_key s = k \<longrightarrow> keeps_key k s (snd y)"
proof (rule run_forever.raw_induct
         [where P = "\<lambda>i s y. api_key s = k \<longrightarrow> keeps_key k s (snd y)", OF _ assms(2)])
  fix rf :: "int \<Rightarrow> state \<Rightarrow> (exn \<times> state) option" and i s y
  assume IH: "\<And>i s y. rf i s = Some y \<Longrightarrow> api_key s = k \<longrightarrow> keeps_key k s (snd y)"
    and eq: "(case cycle i s of (Inl e, s') \<Rightarrow> Some (e, s') | (Inr u, s') \<Rightarrow> rf i s') = Some y"
  show "api_key s = k \<longrightarrow> keeps_key k s (snd y)"
  proof
    assume a: "api_key s = k"
    from keyed_cycle[OF assms(1), of i] a have c: "keeps_key k s (snd (cycle i s))"
      by (simp add: keyed_def)
    show "keeps_key k s (snd y)"
    proof (cases "cycle i s")
      case (Pair r s1)
      show ?thesis
      proof (cases r)
        case (Inl e)
        with Pair eq c show ?thesis by auto
      next
        case (Inr u)
        with Pair eq have "rf i s1 = Some y" by simp
        from IH[OF this] have "api_key s1 = k \<longrightarrow> keeps_key k s1 (snd y)" .
        moreover from c Pair have "api_key s1 = k" by (simp add: keeps_key_def)
        ultimately have "keeps_key k s1 (snd y)" by simp
        with c Pair show ?thesis by (auto intro: keeps_key_trans)
      qed
    qed
  qed
qed


lemma run_loop_interrupted:
  "run_loop 300 interrupted =
     Some (KeyboardInterrupt, interrupted
        \<lparr>sent := [gigs_request interrupted ''open''],
         trace := [PrintStartingLoop 300, PrintRule, PrintRunningCycle (name interrupted),
                   PrintRule]\<rparr>)"
  by (subst run_loop_def, subst run_forever.simps)
     (simp add: cycle_def run_once_def browse_gigs_def run gigs_request_def headers_def
      example_agent_def interrupted_def)

text \<open>
  A registration that obtains a key writes it to the state file before it returns,
  and the constructor reads the key of a file that \<^verbatim>\<open>_save_state\<close> has written.
\<close>

lemma register_saves:
  assumes "\<not> truthy (api_key s)" and "register s = (Inr True, s')"
  shows "state_file s' = Some (Content (JObj
           [(''api_key'', api_key s'), (''user_id'', user_id s'), (''name'', name s')]))"
  using assms
  by (auto simp: register_def run save_state_def response_json_def bindE_def
      split: if_splits sum.splits option.splits reply.splits prod.splits)

lemma init_reloads:
  assumes "state_file s = Some (Content (JObj [(''api_key'', k), (''user_id'', i), (''name'', n)]))"
  shows "api_key (snd (init nm caps s)) = k \<and> state_file (snd (init nm caps s)) = state_file s"
  using assms by (simp add: init_def load_state_def run)

text \<open>
  C8. For a non-empty key \<open>k\<close>, every operation of an agent that holds \<open>k\<close>
  (registering, browsing, applying, checking the applications, submitting, working,
  a whole cycle, an iteration of the loop, the loop if it ends) leaves the agent
  with \<open>k\<close> and the state file as it was, and every request it makes carries \<open>k\<close>
  in its headers. An agent constructed over the state file that an agent holding
  \<open>k\<close> has saved holds \<open>k\<close>, and the file is not changed. And the registration
  that obtains \<open>k\<close> saves it: when an agent without a key registers with success
  and holds \<open>k\<close> after it, the state file holds \<open>k\<close>, and an agent constructed
  over that file holds \<open>k\<close>.
\<close>

theorem api_key_is_kept:
  assumes "truthy k"
  shows "keyed k register
       \<and> keyed k (browse_gigs status)
       \<and> keyed k (apply_to_gig gig_id proposal)
       \<and> keyed k check_applications
       \<and> keyed k (submit_deliverable gig_id content)
       \<and> keyed k (do_work gig)
       \<and> keyed k run_once
       \<and> keyed k (cycle interval_seconds)
       \<and> (api_key s = k \<and> run_loop interval_seconds s = Some y \<longrightarrow> keeps_key k s (snd y))
       \<and> (api_key s = k \<longrightarrow>
            api_key (snd (init nm caps (snd (save_state s)))) = k
          \<and> state_file (snd (init nm caps (snd (save_state s)))) = state_file (snd (save_state s)))
       \<and> (\<not> truthy (api_key u) \<and> register u = (Inr True, u') \<and> api_key u' = k \<longrightarrow>
            state_file u' = Some (Content (JObj
              [(''api_key'', k), (''user_id'', user_id u'), (''name'', name u')]))
          \<and> api_key (snd (init nm caps u')) = k
          \<and> state_file (snd (init nm caps u')) = state_file u')"
proof -
  have obtained: "\<not> truthy (api_key u) \<and> register u = (Inr True, u') \<and> api_key u' = k \<longrightarrow>
            state_file u' = Some (Content (JObj
              [(''api_key'', k), (''user_id'', user_id u'), (''name'', name u')]))
          \<and> api_key (snd (init nm caps u')) = k
          \<and> state_file (snd (init nm caps u')) = state_file u'"
  proof
    assume a: "\<not> truthy (api_key u) \<and> register u = (Inr True, u') \<and> api_key u' = k"
    with register_saves[of u u'] have f: "state_file u' = Some (Content (JObj
              [(''api_key'', k), (''user_id'', user_id u'), (''name'', name u')]))"
      by simp
    from init_reloads[OF f] f show "state_file u' = Some (Content (JObj
              [(''api_key'', k), (''user_id'', user_id u'), (''name'', name u')]))
          \<and> api_key (snd (init nm caps u')) = k
          \<and> state_file (snd (init nm caps u')) = state_file u'"
      by simp
  qed
  have loop: "api_key s = k \<and> run_loop interval_seconds s = Some y \<longrightarrow> keeps_key k s (snd y)"
  proof
    assume a: "api_key s = k \<and> run_loop interval_seconds s = Some y"
    let ?s0 = "snd (print (PrintStartingLoop interval_seconds) s)"
    from a have r: "run_forever interval_seconds ?s0 = Some y"
      by (simp add: run_loop_def)
    from a have k0: "api_key ?s0 = k" by (simp add: print_def)
    from keyed_run_forever[OF assms r] k0 have "keeps_key k ?s0 (snd y)" by simp
    then show "keeps_key k s (snd y)"
      by (simp add: keeps_key_def print_def)
  qed
  have stored: "api_key s = k \<longrightarrow>
            api_key (snd (init nm caps (snd (save_state s)))) = k
          \<and> state_file (snd (init nm caps (snd (save_state s)))) = state_file (snd (save_state s))"
    by (simp add: init_def save_state_def load_state_def run)
  from assms loop stored obtained show ?thesis
    by (simp add: keyed_register keyed_browse_gigs keyed_apply_to_gig keyed_check_applications
        keyed_submit_deliverable keyed_do_work keyed_run_once keyed_cycle)
qed

theorem api_key_is_kept_witness:
  "truthy (JStr ''key-1'')
   \<and> api_key (cycle_with (JList [won_application])) = JStr ''key-1''
   \<and> api_key (snd (run_once (cycle_with (JList [won_application])))) = JStr ''key-1''
   \<and> state_file (snd (run_once (cycle_with (JList [won_application]))))
       = state_file (cycle_with (JList [won_application]))
   \<and> list_all (carries (JStr ''key-1'')) (sent (snd (run_once (cycle_with (JList [won_application])))))
   \<and> length (sent (snd (run_once (cycle_with (JList [won_application]))))) = 4
   \<and> api_key interrupted = JStr ''key-1''
   \<and> run_loop 300 interrupted =
       Some (KeyboardInterrupt, interrupted
          \<lparr>sent := [gigs_request interrupted ''open''],
           trace := [PrintStartingLoop 300, PrintRule, PrintRunningCycle (name interrupted),
                     PrintRule]\<rparr>)
   \<and> keeps_key (JStr ''key-1'') interrupted
       (interrupted
          \<lparr>sent := [gigs_request interrupted ''open''],
           trace := [PrintStartingLoop 300, PrintRule, PrintRunningCycle (name interrupted),
                     PrintRule]\<rparr>)
   \<and> api_key (snd (init ''ExampleAgent-zz99'' CAPABILITIES (snd (save_state interrupted))))
       = JStr ''key-1''
   \<and> truthy (JStr ''key-9'')
   \<and> \<not> truthy (api_key fresh)
   \<and> fst (register fresh) = Inr True
   \<and> api_key (snd (register fresh)) = JStr ''key-9''
   \<and> state_file (snd (register fresh)) = Some (Content (JObj
        [(''api_key'', JStr ''key-9''), (''user_id'', user_id (snd (register fresh))),
         (''name'', name (snd (register fresh)))]))
   \<and> user_id (snd (register fresh)) = JStr ''u-9''
   \<and> api_key (snd (init ''ExampleAgent-zz99'' CAPABILITIES (snd (register fresh)))) = JStr ''key-9''"
proof -
  let ?S = "cycle_with (JList [won_application])"
  let ?X = "interrupted
          \<lparr>sent := [gigs_request interrupted ''open''],
           trace := [PrintStartingLoop 300, PrintRule, PrintRunningCycle (name interrupted),
                     PrintRule]\<rparr>"
  have t: "truthy (JStr ''key-1'')" by simp
  have a: "api_key ?S = JStr ''key-1''"
    by (simp add: cycle_with_def example_agent_def)
  have n: "sent ?S = []"
    by (simp add: cycle_with_def example_agent_def)
  have ai: "api_key interrupted = JStr ''key-1''"
    by (simp add: interrupted_def example_agent_def)
  note T = api_key_is_kept[OF t, where interval_seconds = 300 and s = interrupted
             and y = "(KeyboardInterrupt, ?X)" and nm = "''ExampleAgent-zz99''"
             and caps = CAPABILITIES]
  from T have "keyed (JStr ''key-1'') run_once" by simp
  with a have "keeps_key (JStr ''key-1'') ?S (snd (run_once ?S))"
    by (simp add: keyed_def)
  with n have c1: "api_key (snd (run_once ?S)) = JStr ''key-1''
      \<and> state_file (snd (run_once ?S)) = state_file ?S
      \<and> list_all (carries (JStr ''key-1'')) (sent (snd (run_once ?S)))"
    by (auto simp: keeps_key_def)
  have c3: "length (sent (snd (run_once ?S))) = 4"
    by code_simp
  from T ai run_loop_interrupted have c2: "keeps_key (JStr ''key-1'') interrupted ?X
      \<and> api_key (snd (init ''ExampleAgent-zz99'' CAPABILITIES (snd (save_state interrupted))))
           = JStr ''key-1''"
    by simp
  have t9: "truthy (JStr ''key-9'')" by simp
  have f0: "\<not> truthy (api_key fresh)" by (simp add: fresh_def)
  have f1: "fst (register fresh) = Inr True"
    by (simp add: register_def run register_request_def response_json_def bindE_def
        save_state_def fresh_def example_agent_def always_def)
  then have f2: "register fresh = (Inr True, snd (register fresh))"
    by (metis prod.collapse)
  have f3: "api_key (snd (register fresh)) = JStr ''key-9''
      \<and> user_id (snd (register fresh)) = JStr ''u-9''"
    by (simp add: register_def run register_request_def response_json_def bindE_def
        save_state_def fresh_def example_agent_def always_def)
  from api_key_is_kept[OF t9, where u = fresh and u' = "snd (register fresh)"
         and nm = "''ExampleAgent-zz99''" and caps = CAPABILITIES] f0 f2 f3
  have c4: "state_file (snd (register fresh)) = Some (Content (JObj
        [(''api_key'', JStr ''key-9''), (''user_id'', user_id (snd (register fresh))),
         (''name'', name (snd (register fresh)))]))
      \<and> api_key (snd (init ''ExampleAgent-zz99'' CAPABILITIES (snd (register fresh))))
           = JStr ''key-9''"
    by simp
  from t a c1 c3 ai run_loop_interrupted c2 t9 f0 f1 f3 c4 show ?thesis by simp
qed

section \<open>The loop\<close>











































text \<open>
  A delay beyond \<open>SLEEP_MAX\<close> ends the loop as well, by the \<^verbatim>\<open>OverflowError\<close>
  of the first sleep.
\<close>

lemma huge_delay_ends_the_loop:
  "map_option fst (run_loop 100000000000000000000 refused) = Some OverflowError"
  by (subst run_loop_def, subst run_forever.simps)
     (simp add: cycle_def run_once_def browse_gigs_def run sleep_def SLEEP_MAX_def
      gigs_request_def headers_def example_agent_def refused_def always_def)

end
